theory Spec2Isabelle
  imports Main "HOL-Library.Sublist"
begin

section \<open>The file system and the log of external calls\<close>

text \<open>
  The installer of \<^verbatim>\<open>src/backend/wine/manager/downloader/main.ts\<close> works on three
  paths below the installation directory: the archive file, the install subdirectory and
  its backup. A path is the string the code builds; the store maps a path to what is found
  there. A directory is kept with the files below it, since the code removes, renames and
  measures a directory only as a whole.
\<close>

type_synonym path = string

datatype node = File string | Dir "(string \<times> string) list"

datatype fs_error = ENOENT | EEXIST | ENOTDIR | EISDIR | ENOTEMPTY | EACCES

text \<open>Every call that leaves the function is recorded, in the order the calls are made.\<close>

datatype event =
    HttpGet string
  | ExistsSync path
  | StatSync path
  | Unlink path
  | RmSync path
  | MkdirSync path
  | RenameSync path path
  | ReadFileSync path
  | Download string path
  | Sha512
  | Unzip path path
  | GetFolderSize path
  | LogWarning
  | LogError string

record state =
  fs :: "path \<Rightarrow> node option"
  trace :: "event list"

definition emit :: "event \<Rightarrow> state \<Rightarrow> state" where
  "emit e s = s\<lparr>trace := trace s @ [e]\<rparr>"

subsection \<open>The calls of graceful-fs\<close>

definition is_dir :: "node option \<Rightarrow> bool" where
  "is_dir x = (case x of None \<Rightarrow> False | Some (File c) \<Rightarrow> False | Some (Dir es) \<Rightarrow> True)"

definition existsSync :: "path \<Rightarrow> state \<Rightarrow> bool \<times> state" where
  "existsSync p s = (fs s p \<noteq> None, emit (ExistsSync p) s)"

text \<open>\<^verbatim>\<open>statSync(p).isDirectory()\<close>; \<^verbatim>\<open>statSync\<close> throws where nothing is found.\<close>

definition statSync_isDirectory :: "path \<Rightarrow> state \<Rightarrow> (fs_error + bool) \<times> state" where
  "statSync_isDirectory p s =
     ((case fs s p of
         None \<Rightarrow> Inl ENOENT
       | Some (File c) \<Rightarrow> Inr False
       | Some (Dir es) \<Rightarrow> Inr True),
      emit (StatSync p) s)"

text \<open>
  \<^verbatim>\<open>rmSync(p, { recursive: true })\<close>: the option \<^verbatim>\<open>force\<close> is not given, so the call
  throws where nothing is found.
\<close>

definition rmSync :: "path \<Rightarrow> state \<Rightarrow> (fs_error + unit) \<times> state" where
  "rmSync p s =
     (case fs s p of
        None \<Rightarrow> (Inl ENOENT, emit (RmSync p) s)
      | Some n \<Rightarrow> (Inr (), emit (RmSync p) (s\<lparr>fs := (fs s)(p := None)\<rparr>)))"

text \<open>
  \<^verbatim>\<open>mkdirSync(p)\<close> throws where something is found already; it can also be refused by the
  system (permissions, a full disk), which the environment decides.
\<close>

definition mkdirSync :: "bool \<Rightarrow> path \<Rightarrow> state \<Rightarrow> (fs_error + unit) \<times> state" where
  "mkdirSync permitted p s =
     (if fs s p \<noteq> None then (Inl EEXIST, emit (MkdirSync p) s)
      else if permitted then (Inr (), emit (MkdirSync p) (s\<lparr>fs := (fs s)(p := Some (Dir []))\<rparr>))
      else (Inl EACCES, emit (MkdirSync p) s))"

text \<open>
  \<^verbatim>\<open>renameSync(old, new)\<close> as rename(2): the old path must exist; a file replaces a file,
  a directory replaces an empty directory, anything else at the new path is an error.
\<close>

definition renameSync :: "path \<Rightarrow> path \<Rightarrow> state \<Rightarrow> (fs_error + unit) \<times> state" where
  "renameSync old new s =
     (let s' = emit (RenameSync old new) s;
          moved = (\<lambda>n. s'\<lparr>fs := ((fs s)(old := None))(new := Some n)\<rparr>)
      in case fs s old of
           None \<Rightarrow> (Inl ENOENT, s')
         | Some n \<Rightarrow>
             if old = new then (Inr (), s')
             else (case (n, fs s new) of
                     (_, None) \<Rightarrow> (Inr (), moved n)
                   | (File c, Some (File c')) \<Rightarrow> (Inr (), moved n)
                   | (File c, Some (Dir es)) \<Rightarrow> (Inl EISDIR, s')
                   | (Dir es, Some (File c')) \<Rightarrow> (Inl ENOTDIR, s')
                   | (Dir es, Some (Dir es')) \<Rightarrow>
                       if es' = [] then (Inr (), moved n) else (Inl ENOTEMPTY, s')))"

definition readFileSync :: "path \<Rightarrow> state \<Rightarrow> (fs_error + string) \<times> state" where
  "readFileSync p s =
     ((case fs s p of
         None \<Rightarrow> Inl ENOENT
       | Some (File c) \<Rightarrow> Inr c
       | Some (Dir es) \<Rightarrow> Inl EISDIR),
      emit (ReadFileSync p) s)"

section \<open>The collaborators outside the file\<close>

text \<open>
  What the network, the archive and the system do in one run is the environment of the
  run. A cancellation is seen by the installer only as a rejection of \<^verbatim>\<open>downloadFile\<close>
  or \<^verbatim>\<open>unzipFile\<close> whose text contains \<^verbatim>\<open>AbortError\<close>; the progress callback has no
  effect on the control flow and is left out.
\<close>

record download_outcome =
  download_rejects :: "string option"
  download_writes :: "string option"

record unzip_outcome =
  unzip_rejects :: "string option"
  unzip_leaves :: "node option"

record env =
  axios_get :: "string \<Rightarrow> string option"
  on_download :: download_outcome
  on_unzip :: unzip_outcome
  sha512_hex :: "string \<Rightarrow> string"
  unlink_permitted :: bool
  mkdir_permitted :: bool

text \<open>\<^verbatim>\<open>url.split('/').slice(-1)[0]\<close>: the text after the last slash.\<close>

definition last_segment :: "string \<Rightarrow> string" where
  "last_segment u = rev (takeWhile (\<lambda>c. c \<noteq> CHR ''/'') (rev u))"

text \<open>
  Modelled from the spec: \<^verbatim>\<open>unlinkFile\<close> of \<^verbatim>\<open>./utilities\<close>, the single-file deletion.
  It is best-effort: it removes a file when the system lets it and never throws.
\<close>

definition unlinkFile :: "env \<Rightarrow> path \<Rightarrow> state \<Rightarrow> state" where
  "unlinkFile e p s =
     (case fs s p of
        Some (File c) \<Rightarrow>
          if unlink_permitted e then emit (Unlink p) (s\<lparr>fs := (fs s)(p := None)\<rparr>)
          else emit (Unlink p) s
      | _ \<Rightarrow> emit (Unlink p) s)"

text \<open>
  Modelled from the spec: \<^verbatim>\<open>getFolderSize\<close> of \<^verbatim>\<open>./utilities\<close>, the recursive folder
  size: the sum of the sizes of the files below the path.
\<close>

definition node_size :: "node option \<Rightarrow> nat" where
  "node_size x =
     (case x of
        None \<Rightarrow> 0
      | Some (File c) \<Rightarrow> length c
      | Some (Dir es) \<Rightarrow> sum_list (map (\<lambda>entry. length (snd entry)) es))"

definition getFolderSize :: "path \<Rightarrow> state \<Rightarrow> nat \<times> state" where
  "getFolderSize p s = (node_size (fs s p), emit (GetFolderSize p) s)"

text \<open>
  Modelled from the spec: \<^verbatim>\<open>downloadFile\<close> of \<^verbatim>\<open>backend/utils\<close>, the archive fetcher.
  It streams the remote file to the destination directory, under the last segment of
  the URL, and resolves or rejects; a rejected download may leave a partial file.
\<close>

definition downloadFile :: "env \<Rightarrow> string \<Rightarrow> path \<Rightarrow> state \<Rightarrow> (string + unit) \<times> state" where
  "downloadFile e url dest s =
     (let s1 = emit (Download url dest) s;
          s2 = (case download_writes (on_download e) of
                  None \<Rightarrow> s1
                | Some bytes \<Rightarrow>
                    s1\<lparr>fs := (fs s1)(dest @ ''/'' @ last_segment url := Some (File bytes))\<rparr>)
      in (case download_rejects (on_download e) of None \<Rightarrow> Inr () | Some err \<Rightarrow> Inl err, s2))"

text \<open>
  Modelled from the spec: \<^verbatim>\<open>unzipFile\<close> of \<^verbatim>\<open>./utilities\<close>, the archive extractor.
  It touches nothing outside its target directory; what it leaves at the target, and
  whether it resolves or rejects, is the environment's.
\<close>

definition unzipFile :: "env \<Rightarrow> path \<Rightarrow> path \<Rightarrow> state \<Rightarrow> (string + unit) \<times> state" where
  "unzipFile e filePath unzipDir s =
     (let s1 = emit (Unzip filePath unzipDir) s
      in (case unzip_rejects (on_unzip e) of None \<Rightarrow> Inr () | Some err \<Rightarrow> Inl err,
          s1\<lparr>fs := (fs s1)(unzipDir := unzip_leaves (on_unzip e))\<rparr>))"

text \<open>\<^verbatim>\<open>s.includes(t)\<close> of JavaScript: \<open>t\<close> occurs in \<open>s\<close> as a contiguous piece.\<close>

fun str_includes :: "string \<Rightarrow> string \<Rightarrow> bool" where
  "str_includes [] t = (t = [])"
| "str_includes (c # cs) t = (prefix t (c # cs) \<or> str_includes cs t)"

section \<open>installVersion\<close>

record versionInfo =
  version :: string
  download :: string
  checksum :: "string option"
  disksize :: nat

record installProps =
  versionInfo :: versionInfo
  installDir :: path
  overwrite :: bool

datatype target_problem = DoesNotExist | NotADirectory

text \<open>
  The errors the function rejects with. The code throws plain \<^verbatim>\<open>Error\<close> objects that
  differ in their message (only the abort error has a name of its own); each
  \<^verbatim>\<open>throw\<close> is a constructor here. \<open>RequestError\<close> is a rejected \<^verbatim>\<open>axios.get\<close> and
  \<open>FsError\<close> an exception of a graceful-fs call that no handler catches.
\<close>

datatype error =
    InvalidTargetError target_problem
  | MissingDownloadLinkError
  | DownloadError string
  | ChecksumMismatchError
  | DirectoryCreationError fs_error
  | ExtractionError string
  | AbortError
  | RequestError
  | FsError fs_error

type_synonym outcome = "(error + versionInfo \<times> path) \<times> state"

text \<open>A string or \<^verbatim>\<open>undefined\<close> used as a condition: the empty string counts as false.\<close>

definition truthy :: "string option \<Rightarrow> bool" where
  "truthy x = (case x of None \<Rightarrow> False | Some t \<Rightarrow> t \<noteq> [])"

text \<open>Lines 187-193: the text of the checksum manifest, fetched when a URL is given.\<close>

definition fetch_sourceChecksum :: "env \<Rightarrow> versionInfo \<Rightarrow> state \<Rightarrow> (error + string option) \<times> state" where
  "fetch_sourceChecksum e v s =
     (if truthy (checksum v)
      then (case axios_get e (the (checksum v)) of
              None \<Rightarrow> (Inl RequestError, emit (HttpGet (the (checksum v))) s)
            | Some text \<Rightarrow> (Inr (Some text), emit (HttpGet (the (checksum v))) s))
      else (Inr None, s))"

text \<open>Lines 195-206: \<^verbatim>\<open>abortHandler\<close> always throws.\<close>

definition abortHandler :: "env \<Rightarrow> path \<Rightarrow> path \<Rightarrow> state \<Rightarrow> error \<times> state" where
  "abortHandler e tarFile installSubDir s =
     (case existsSync installSubDir (unlinkFile e tarFile s) of
        (present, s1) \<Rightarrow>
          if present
          then (case rmSync installSubDir s1 of
                  (Inl err, s2) \<Rightarrow> (FsError err, s2)
                | (Inr u, s2) \<Rightarrow> (AbortError, s2))
          else (AbortError, s1))"

text \<open>Lines 331-339: clean up and resolve with the measured size.\<close>

definition commit_phase :: "env \<Rightarrow> installProps \<Rightarrow> path \<Rightarrow> path \<Rightarrow> state \<Rightarrow> outcome" where
  "commit_phase e rq tarFile installSubDir s =
     (case (if overwrite rq then rmSync (installSubDir @ ''_backup'') s else (Inr (), s)) of
        (Inl err, s1) \<Rightarrow> (Inl (FsError err), s1)
      | (Inr u, s1) \<Rightarrow>
          (case getFolderSize installSubDir (unlinkFile e tarFile s1) of
             (sz, s2) \<Rightarrow> (Inr ((versionInfo rq)\<lparr>disksize := sz\<rparr>, installSubDir), s2)))"

text \<open>Lines 312-329: the handler of a rejected \<^verbatim>\<open>unzipFile\<close>.\<close>

definition unzip_catch :: "env \<Rightarrow> installProps \<Rightarrow> path \<Rightarrow> path \<Rightarrow> string \<Rightarrow> state \<Rightarrow> outcome" where
  "unzip_catch e rq tarFile installSubDir err s =
     (if str_includes err ''AbortError''
      then (case abortHandler e tarFile installSubDir s of (x, s1) \<Rightarrow> (Inl x, s1))
      else (case rmSync installSubDir s of
              (Inl x, s1) \<Rightarrow> (Inl (FsError x), s1)
            | (Inr u, s1) \<Rightarrow>
                (case (if overwrite rq
                       then renameSync (installSubDir @ ''_backup'') installSubDir
                              (unlinkFile e tarFile s1)
                       else (Inr (), unlinkFile e tarFile s1)) of
                   (Inl x, s2) \<Rightarrow> (Inl (FsError x), s2)
                 | (Inr u', s2) \<Rightarrow> (Inl (ExtractionError err), s2))))"

text \<open>Lines 293-329: make the directory or move the old one aside, then extract.\<close>

definition extract_phase :: "env \<Rightarrow> installProps \<Rightarrow> path \<Rightarrow> path \<Rightarrow> state \<Rightarrow> outcome" where
  "extract_phase e rq tarFile installSubDir s =
     (if \<not> overwrite rq
      then (case mkdirSync (mkdir_permitted e) installSubDir s of
              (Inl x, s1) \<Rightarrow> (Inl (DirectoryCreationError x), unlinkFile e tarFile s1)
            | (Inr u, s1) \<Rightarrow>
                (case unzipFile e tarFile installSubDir s1 of
                   (Inl err, s2) \<Rightarrow> unzip_catch e rq tarFile installSubDir err s2
                 | (Inr u', s2) \<Rightarrow> commit_phase e rq tarFile installSubDir s2))
      else (case renameSync installSubDir (installSubDir @ ''_backup'') s of
              (Inl x, s1) \<Rightarrow> (Inl (FsError x), s1)
            | (Inr u, s1) \<Rightarrow>
                (case unzipFile e tarFile installSubDir s1 of
                   (Inl err, s2) \<Rightarrow> unzip_catch e rq tarFile installSubDir err s2
                 | (Inr u', s2) \<Rightarrow> commit_phase e rq tarFile installSubDir s2)))"

text \<open>Lines 275-291: hash the archive and compare with the manifest text.\<close>

definition checksum_phase :: "env \<Rightarrow> installProps \<Rightarrow> string option \<Rightarrow> path \<Rightarrow> path \<Rightarrow> state \<Rightarrow> outcome" where
  "checksum_phase e rq sourceChecksum tarFile installSubDir s =
     (case readFileSync tarFile s of
        (Inl x, s1) \<Rightarrow> (Inl (FsError x), s1)
      | (Inr fileBuffer, s1) \<Rightarrow>
          if truthy sourceChecksum
          then (if \<not> str_includes (the sourceChecksum) (sha512_hex e fileBuffer)
                then (Inl ChecksumMismatchError, unlinkFile e tarFile (emit Sha512 s1))
                else extract_phase e rq tarFile installSubDir (emit Sha512 s1))
          else extract_phase e rq tarFile installSubDir (emit LogWarning (emit Sha512 s1)))"

text \<open>Lines 237-273: remove a stale archive, download, handle a rejected download.\<close>

definition download_phase :: "env \<Rightarrow> installProps \<Rightarrow> string option \<Rightarrow> path \<Rightarrow> path \<Rightarrow> state \<Rightarrow> outcome" where
  "download_phase e rq sourceChecksum tarFile installSubDir s =
     (case downloadFile e (download (versionInfo rq)) (installDir rq) (unlinkFile e tarFile s) of
        (Inl err, s1) \<Rightarrow>
          if str_includes err ''AbortError''
          then (case abortHandler e tarFile installSubDir s1 of (x, s2) \<Rightarrow> (Inl x, s2))
          else (Inl (DownloadError err), unlinkFile e tarFile s1)
      | (Inr u, s1) \<Rightarrow> checksum_phase e rq sourceChecksum tarFile installSubDir s1)"

text \<open>Lines 224-235 and the rest: skip an existing install unless it is to be overwritten.\<close>

definition skip_or_install :: "env \<Rightarrow> installProps \<Rightarrow> string option \<Rightarrow> path \<Rightarrow> path \<Rightarrow> state \<Rightarrow> outcome" where
  "skip_or_install e rq sourceChecksum tarFile installSubDir s =
     (case existsSync installSubDir s of
        (present, s1) \<Rightarrow>
          if present \<and> \<not> overwrite rq
          then (case getFolderSize installSubDir (emit LogWarning s1) of
                  (sz, s2) \<Rightarrow> (Inr ((versionInfo rq)\<lparr>disksize := sz\<rparr>, installSubDir), s2))
          else download_phase e rq sourceChecksum tarFile installSubDir s1)"

text \<open>Lines 212-222: the checks of the installation directory and of the download link.\<close>

definition preflight :: "installProps \<Rightarrow> state \<Rightarrow> (error + unit) \<times> state" where
  "preflight rq s =
     (case existsSync (installDir rq) s of
        (present, s1) \<Rightarrow>
          if \<not> present then (Inl (InvalidTargetError DoesNotExist), s1)
          else (case statSync_isDirectory (installDir rq) s1 of
                  (Inl x, s2) \<Rightarrow> (Inl (FsError x), s2)
                | (Inr d, s2) \<Rightarrow>
                    if \<not> d then (Inl (InvalidTargetError NotADirectory), s2)
                    else if download (versionInfo rq) = [] then (Inl MissingDownloadLinkError, s2)
                    else (Inr (), s2)))"

definition tarFile_of :: "installProps \<Rightarrow> path" where
  "tarFile_of rq = installDir rq @ ''/'' @ last_segment (download (versionInfo rq))"

definition installSubDir_of :: "installProps \<Rightarrow> path" where
  "installSubDir_of rq = installDir rq @ ''/'' @ version (versionInfo rq)"

definition backup_of :: "installProps \<Rightarrow> path" where
  "backup_of rq = installSubDir_of rq @ ''_backup''"

text \<open>
  Lines 171-340. The declarations come first, and with them the request for the checksum
  manifest; the checks and the installation follow.
\<close>

definition installVersion :: "env \<Rightarrow> installProps \<Rightarrow> state \<Rightarrow> outcome" where
  "installVersion e rq s =
     (case fetch_sourceChecksum e (versionInfo rq) s of
        (Inl x, s1) \<Rightarrow> (Inl x, s1)
      | (Inr sourceChecksum, s1) \<Rightarrow>
          (case preflight rq s1 of
             (Inl x, s2) \<Rightarrow> (Inl x, s2)
           | (Inr u, s2) \<Rightarrow>
               skip_or_install e rq sourceChecksum (tarFile_of rq) (installSubDir_of rq) s2))"

section \<open>The outcomes and the order of the calls\<close>

text \<open>
  The failures the pipeline defines for the time after the download has started; the
  other errors are those of the checks before it and the exceptions no handler catches.
\<close>

fun defined_failure :: "error \<Rightarrow> bool" where
  "defined_failure (DownloadError m) = True"
| "defined_failure ChecksumMismatchError = True"
| "defined_failure (DirectoryCreationError x) = True"
| "defined_failure (ExtractionError m) = True"
| "defined_failure AbortError = True"
| "defined_failure (InvalidTargetError x) = False"
| "defined_failure MissingDownloadLinkError = False"
| "defined_failure RequestError = False"
| "defined_failure (FsError x) = False"

definition returns_as_defined :: "error + versionInfo \<times> path \<Rightarrow> bool" where
  "returns_as_defined r = (case r of Inl x \<Rightarrow> defined_failure x | Inr x \<Rightarrow> True)"

text \<open>
  The phase a call belongs to: 1 the checks of the target, 3 the download, 4 the checksum,
  5 the extraction, 6 the measuring of the installed folder. The phase of the request for
  the manifest is a parameter. Calls made in several phases (removing the archive,
  removing a directory, looking for the install subdirectory, logging) have none.
\<close>

definition phase_rank :: "nat \<Rightarrow> installProps \<Rightarrow> event \<Rightarrow> nat option" where
  "phase_rank manifest_phase rq ev =
     (case ev of
        HttpGet u \<Rightarrow> Some manifest_phase
      | ExistsSync p \<Rightarrow> if p = installDir rq then Some 1 else None
      | StatSync p \<Rightarrow> Some 1
      | Unlink p \<Rightarrow> None
      | RmSync p \<Rightarrow> None
      | MkdirSync p \<Rightarrow> Some 5
      | RenameSync a b \<Rightarrow> Some 5
      | ReadFileSync p \<Rightarrow> Some 4
      | Download u d \<Rightarrow> Some 3
      | Sha512 \<Rightarrow> Some 4
      | Unzip a b \<Rightarrow> Some 5
      | GetFolderSize p \<Rightarrow> Some 6
      | LogWarning \<Rightarrow> None
      | LogError m \<Rightarrow> None)"

definition phases_of :: "nat \<Rightarrow> installProps \<Rightarrow> event list \<Rightarrow> nat list" where
  "phases_of manifest_phase rq tr = List.map_filter (phase_rank manifest_phase rq) tr"

text \<open>Wherever \<open>b\<close> occurs in the log, \<open>a\<close> has occurred before it.\<close>

definition precedes :: "event \<Rightarrow> event \<Rightarrow> event list \<Rightarrow> bool" where
  "precedes a b tr = (b \<in> set tr \<longrightarrow> a \<in> set (takeWhile (\<lambda>x. x \<noteq> b) tr))"

section \<open>getAvailableVersions\<close>








section \<open>Example runs\<close>

definition wine_dir_with_install :: "path \<Rightarrow> node option" where
  "wine_dir_with_install =
     [''/wine'' \<mapsto> Dir [], ''/wine/GE-1'' \<mapsto> Dir [(''marker'', ''old'')]]"

definition wine_dir_empty :: "path \<Rightarrow> node option" where
  "wine_dir_empty = [''/wine'' \<mapsto> Dir []]"

definition ge1 :: versionInfo where
  "ge1 = \<lparr>version = ''GE-1'', download = ''https://h/GE-1.tar'',
           checksum = Some ''https://h/GE-1.sha512sum'', disksize = 0\<rparr>"

definition install_ge1 :: "bool \<Rightarrow> installProps" where
  "install_ge1 ow = \<lparr>versionInfo = ge1, installDir = ''/wine'', overwrite = ow\<rparr>"

text \<open>An environment in which every step succeeds and the manifest lists the digest.\<close>

definition fair_weather :: env where
  "fair_weather =
     \<lparr>axios_get = (\<lambda>u. Some ''0a1b  GE-1.tar''),
      on_download = \<lparr>download_rejects = None, download_writes = Some ''archive''\<rparr>,
      on_unzip = \<lparr>unzip_rejects = None, unzip_leaves = Some (Dir [(''bin/wine'', ''new'')])\<rparr>,
      sha512_hex = (\<lambda>bytes. ''0a1b''),
      unlink_permitted = True,
      mkdir_permitted = True\<rparr>"

definition start :: "(path \<Rightarrow> node option) \<Rightarrow> state" where
  "start files = \<lparr>fs = files, trace = []\<rparr>"



text \<open>Variations: a cancellation, a broken archive, a manifest that is empty or out of reach.\<close>

definition abort_while_unzipping :: env where
  "abort_while_unzipping =
     fair_weather\<lparr>on_unzip := \<lparr>unzip_rejects = Some ''AbortError'',
                                unzip_leaves = Some (Dir [(''bin/wine'', ''ne'')])\<rparr>\<rparr>"

definition unzip_fails_at_once :: env where
  "unzip_fails_at_once =
     fair_weather\<lparr>on_unzip := \<lparr>unzip_rejects = Some ''tar: not an archive'',
                                unzip_leaves = None\<rparr>\<rparr>"

definition abort_while_downloading :: env where
  "abort_while_downloading =
     fair_weather\<lparr>on_download := \<lparr>download_rejects = Some ''AbortError'',
                                   download_writes = Some ''arch''\<rparr>\<rparr>"

definition empty_manifest :: env where
  "empty_manifest = fair_weather\<lparr>axios_get := (\<lambda>u. Some [])\<rparr>"

definition manifest_unreachable :: env where
  "manifest_unreachable = fair_weather\<lparr>axios_get := (\<lambda>u. None)\<rparr>"

definition wrong_digest :: env where
  "wrong_digest = fair_weather\<lparr>sha512_hex := (\<lambda>bytes. ''ffff'')\<rparr>"

definition install_without_link :: installProps where
  "install_without_link =
     \<lparr>versionInfo = ge1\<lparr>download := []\<rparr>, installDir = ''/wine'', overwrite = False\<rparr>"

text \<open>
  The calls a run adds to the log of \<open>s\<close> never go back to an earlier phase, and none of
  them is of a phase before \<open>k\<close>; the manifest is requested in phase 0.
\<close>

definition in_order :: "installProps \<Rightarrow> nat \<Rightarrow> state \<Rightarrow> state \<Rightarrow> bool" where
  "in_order rq k s s' =
     (prefix (trace s) (trace s')
      \<and> sorted (k # phases_of 0 rq (drop (length (trace s)) (trace s'))))"

section \<open>The protocol of the calls\<close>

text \<open>
  The stage a run is in, named after the call made last. The table lists, for each
  stage, the calls that may come next and the stage each leads to: the request for the
  manifest (when a checksum URL is given), the two checks of the target, the look at the
  install subdirectory, then the download, the checksum, the extraction and the commit,
  each with its clean-up. A call that is not in the table at the stage reached is out
  of order.
\<close>

datatype stage =
    Declared | ManifestFetched | TargetFound | TargetChecked | SubdirLooked
  | SkipWarned | Measured
  | StaleRemoved | Downloaded | DownloadUndone | AbortLooked | AbortRemoved
  | ArchiveRead | Hashed | HashedUnverified | MismatchCleaned
  | DirMade | MkdirUndone | MovedAside | Unzipped | UnzipUnlinked
  | PartialRemoved | CatchUnlinked | Restored
  | BackupRemoved | CommitUnlinked

definition protocol :: "installProps \<Rightarrow> ((stage \<times> event) \<times> stage) list" where
  "protocol rq =
     (if truthy (checksum (versionInfo rq))
      then [((Declared, HttpGet (the (checksum (versionInfo rq)))), ManifestFetched)]
      else [((Declared, ExistsSync (installDir rq)), TargetFound)])
     @ [((ManifestFetched, ExistsSync (installDir rq)), TargetFound),
        ((TargetFound, StatSync (installDir rq)), TargetChecked),
        ((TargetChecked, ExistsSync (installSubDir_of rq)), SubdirLooked),
        ((SubdirLooked, Unlink (tarFile_of rq)), StaleRemoved),
        ((StaleRemoved, Download (download (versionInfo rq)) (installDir rq)), Downloaded),
        ((Downloaded, Unlink (tarFile_of rq)), DownloadUndone),
        ((DownloadUndone, ExistsSync (installSubDir_of rq)), AbortLooked),
        ((AbortLooked, RmSync (installSubDir_of rq)), AbortRemoved),
        ((Downloaded, ReadFileSync (tarFile_of rq)), ArchiveRead),
        ((ArchiveRead, Sha512), Hashed),
        ((Hashed, Unlink (tarFile_of rq)), MismatchCleaned),
        ((Hashed, LogWarning), HashedUnverified),
        ((Unzipped, Unlink (tarFile_of rq)), UnzipUnlinked),
        ((UnzipUnlinked, ExistsSync (installSubDir_of rq)), AbortLooked),
        ((Unzipped, RmSync (installSubDir_of rq)), PartialRemoved),
        ((PartialRemoved, Unlink (tarFile_of rq)), CatchUnlinked)]
     @ (if overwrite rq
        then [((Hashed, RenameSync (installSubDir_of rq) (backup_of rq)), MovedAside),
              ((HashedUnverified, RenameSync (installSubDir_of rq) (backup_of rq)), MovedAside),
              ((MovedAside, Unzip (tarFile_of rq) (installSubDir_of rq)), Unzipped),
              ((CatchUnlinked, RenameSync (backup_of rq) (installSubDir_of rq)), Restored),
              ((Unzipped, RmSync (backup_of rq)), BackupRemoved),
              ((BackupRemoved, Unlink (tarFile_of rq)), CommitUnlinked),
              ((CommitUnlinked, GetFolderSize (installSubDir_of rq)), Measured)]
        else [((SubdirLooked, LogWarning), SkipWarned),
              ((SkipWarned, GetFolderSize (installSubDir_of rq)), Measured),
              ((Hashed, MkdirSync (installSubDir_of rq)), DirMade),
              ((HashedUnverified, MkdirSync (installSubDir_of rq)), DirMade),
              ((DirMade, Unlink (tarFile_of rq)), MkdirUndone),
              ((DirMade, Unzip (tarFile_of rq) (installSubDir_of rq)), Unzipped),
              ((UnzipUnlinked, GetFolderSize (installSubDir_of rq)), Measured)])"

definition step :: "installProps \<Rightarrow> stage \<Rightarrow> event \<Rightarrow> stage option" where
  "step rq st ev = map_of (protocol rq) (st, ev)"

fun walk :: "installProps \<Rightarrow> stage \<Rightarrow> event list \<Rightarrow> stage option" where
  "walk rq st [] = Some st"
| "walk rq st (ev # evs) =
     (case step rq st ev of None \<Rightarrow> None | Some st' \<Rightarrow> walk rq st' evs)"

text \<open>The stages a run may return in: it has resolved, or a call or a check has failed.\<close>

definition may_end :: "installProps \<Rightarrow> stage \<Rightarrow> bool" where
  "may_end rq st =
     (st \<in> set [ManifestFetched, TargetFound, TargetChecked, Measured, DownloadUndone,
                AbortLooked, AbortRemoved, ArchiveRead, MismatchCleaned, MkdirUndone,
                MovedAside, PartialRemoved, Restored, BackupRemoved]
      \<or> (st = CatchUnlinked \<and> \<not> overwrite rq))"

definition follows_protocol :: "installProps \<Rightarrow> event list \<Rightarrow> bool" where
  "follows_protocol rq tr =
     (case walk rq Declared tr of None \<Rightarrow> False | Some st \<Rightarrow> may_end rq st)"

text \<open>The calls a run adds to the log of \<open>s\<close> lead from the stage \<open>st\<close> to a stage it may end in.\<close>

definition conforms :: "installProps \<Rightarrow> stage \<Rightarrow> state \<Rightarrow> state \<Rightarrow> bool" where
  "conforms rq st s s' =
     (prefix (trace s) (trace s')
      \<and> (case walk rq st (drop (length (trace s)) (trace s')) of
            None \<Rightarrow> False
          | Some st' \<Rightarrow> may_end rq st'))"

text \<open>The calls that change what is on the disk.\<close>

fun changes_files :: "event \<Rightarrow> bool" where
  "changes_files (Unlink p) = True"
| "changes_files (RmSync p) = True"
| "changes_files (MkdirSync p) = True"
| "changes_files (RenameSync a b) = True"
| "changes_files (Download u d) = True"
| "changes_files (Unzip a b) = True"
| "changes_files (HttpGet u) = False"
| "changes_files (ExistsSync p) = False"
| "changes_files (StatSync p) = False"
| "changes_files (ReadFileSync p) = False"
| "changes_files Sha512 = False"
| "changes_files (GetFolderSize p) = False"
| "changes_files LogWarning = False"
| "changes_files (LogError m) = False"

section \<open>The catalog query\<close>







section \<open>Runs of the installer, evaluated\<close>

lemmas primitive_defs = existsSync_def statSync_isDirectory_def rmSync_def mkdirSync_def
  renameSync_def readFileSync_def unlinkFile_def getFolderSize_def downloadFile_def
  unzipFile_def emit_def

lemmas pipeline_defs = installVersion_def fetch_sourceChecksum_def preflight_def
  skip_or_install_def download_phase_def checksum_phase_def extract_phase_def
  unzip_catch_def commit_phase_def abortHandler_def truthy_def node_size_def
  tarFile_of_def installSubDir_of_def backup_of_def last_segment_def

lemmas example_defs = fair_weather_def abort_while_unzipping_def unzip_fails_at_once_def
  abort_while_downloading_def empty_manifest_def manifest_unreachable_def wrong_digest_def
  install_ge1_def install_without_link_def ge1_def start_def wine_dir_with_install_def
  wine_dir_empty_def

text \<open>
  C1. An overwrite install is cancelled during the extraction. The claim has the old
  install back at the install subdirectory. In the code \<^verbatim>\<open>abortHandler\<close> throws inside
  the handler of \<^verbatim>\<open>unzipFile\<close>, so the lines that restore the backup are not reached:
  the run rejects with the abort error, the archive and the install subdirectory are
  gone, and the old install stays under the backup name.
\<close>

theorem cancelled_extraction_strands_the_backup:
  "fst (installVersion abort_while_unzipping (install_ge1 True) (start wine_dir_with_install))
     = Inl AbortError
   \<and> fs (snd (installVersion abort_while_unzipping (install_ge1 True)
                (start wine_dir_with_install))) ''/wine/GE-1'' = None
   \<and> fs (snd (installVersion abort_while_unzipping (install_ge1 True)
                (start wine_dir_with_install))) ''/wine/GE-1_backup''
       = Some (Dir [(''marker'', ''old'')])
   \<and> fs (snd (installVersion abort_while_unzipping (install_ge1 True)
                (start wine_dir_with_install))) ''/wine/GE-1.tar'' = None"
  by (simp add: pipeline_defs primitive_defs example_defs Let_def)

text \<open>
  C2. An overwrite install whose extraction is rejected, not by a cancellation, before
  anything is written at the install subdirectory. The claim has the old install back,
  no backup, no archive and an extraction error. In the code \<^verbatim>\<open>rmSync\<close> of the install
  subdirectory throws since nothing is there, and the rest of the handler is not run.
\<close>

theorem early_extraction_failure_is_not_rolled_back:
  "fst (installVersion unzip_fails_at_once (install_ge1 True) (start wine_dir_with_install))
     = Inl (FsError ENOENT)
   \<and> fs (snd (installVersion unzip_fails_at_once (install_ge1 True)
                (start wine_dir_with_install))) ''/wine/GE-1'' = None
   \<and> fs (snd (installVersion unzip_fails_at_once (install_ge1 True)
                (start wine_dir_with_install))) ''/wine/GE-1_backup''
       = Some (Dir [(''marker'', ''old'')])
   \<and> fs (snd (installVersion unzip_fails_at_once (install_ge1 True)
                (start wine_dir_with_install))) ''/wine/GE-1.tar'' = Some (File ''archive'')"
  by (simp add: pipeline_defs primitive_defs example_defs Let_def)

text \<open>
  C3. An overwrite install is cancelled during the download. The claim leaves the
  install that was there in place. In the code \<^verbatim>\<open>abortHandler\<close> removes whatever is at
  the install subdirectory, and during the download that can only be the old install.
\<close>

theorem cancelled_download_removes_the_old_install:
  "fs (start wine_dir_with_install) ''/wine/GE-1'' = Some (Dir [(''marker'', ''old'')])
   \<and> fst (installVersion abort_while_downloading (install_ge1 True)
            (start wine_dir_with_install)) = Inl AbortError
   \<and> fs (snd (installVersion abort_while_downloading (install_ge1 True)
                (start wine_dir_with_install))) ''/wine/GE-1'' = None
   \<and> fs (snd (installVersion abort_while_downloading (install_ge1 True)
                (start wine_dir_with_install))) ''/wine/GE-1_backup'' = None
   \<and> fs (snd (installVersion abort_while_downloading (install_ge1 True)
                (start wine_dir_with_install))) ''/wine/GE-1.tar'' = None"
  by (simp add: pipeline_defs primitive_defs example_defs Let_def)

text \<open>
  C5. A checksum URL is given and the manifest fetched from it is the empty text. The
  claim has the check made and the run rejected, the digest not being in the manifest.
  In the code the empty text counts as no checksum: a warning is logged, the archive is
  extracted and the run resolves.
\<close>

theorem empty_manifest_skips_the_check:
  "checksum (versionInfo (install_ge1 False)) = Some ''https://h/GE-1.sha512sum''
   \<and> axios_get empty_manifest ''https://h/GE-1.sha512sum'' = Some []
   \<and> str_includes [] (sha512_hex empty_manifest ''archive'') = False
   \<and> fst (installVersion empty_manifest (install_ge1 False) (start wine_dir_empty))
       = Inr (ge1\<lparr>disksize := 3\<rparr>, ''/wine/GE-1'')
   \<and> fs (snd (installVersion empty_manifest (install_ge1 False) (start wine_dir_empty)))
        ''/wine/GE-1'' = Some (Dir [(''bin/wine'', ''new'')])"
  by (simp add: pipeline_defs primitive_defs example_defs Let_def)

section \<open>The checks before the download\<close>

text \<open>
  C4, as stated, fails: the install subdirectory exists, nothing is to be overwritten,
  the target is a directory and the download link is given, yet the run rejects,
  because the manifest is requested before the install subdirectory is looked for and
  that request is rejected.
\<close>

theorem existing_install_behind_a_failed_request:
  "fs (start wine_dir_with_install) (installSubDir_of (install_ge1 False)) \<noteq> None
   \<and> \<not> overwrite (install_ge1 False)
   \<and> is_dir (fs (start wine_dir_with_install) (installDir (install_ge1 False)))
   \<and> download (versionInfo (install_ge1 False)) \<noteq> []
   \<and> fst (installVersion manifest_unreachable (install_ge1 False)
            (start wine_dir_with_install)) = Inl RequestError"
  by (simp add: pipeline_defs primitive_defs example_defs is_dir_def Let_def)

text \<open>
  C4, amended. When the request for the manifest, if one is made, is answered and the
  checks before the download are passed (the installation directory is a directory, the
  download link is not empty), a run that finds the install subdirectory and is not to
  overwrite it resolves at once: with the version whose disk size is the measured size
  of what is there, and with the path of the install subdirectory. It changes no file,
  and the calls it makes are the request for the manifest, the three checks, the warning
  and the measuring; there is no download.
\<close>

theorem existing_install_is_reused:
  assumes "fs s (installSubDir_of rq) \<noteq> None" and "\<not> overwrite rq"
    and "is_dir (fs s (installDir rq))"
    and "download (versionInfo rq) \<noteq> []"
    and "truthy (checksum (versionInfo rq))
           \<longrightarrow> axios_get e (the (checksum (versionInfo rq))) \<noteq> None"
  shows "installVersion e rq s =
           (Inr ((versionInfo rq)\<lparr>disksize := node_size (fs s (installSubDir_of rq))\<rparr>,
                 installSubDir_of rq),
            s\<lparr>trace := trace s
                 @ (if truthy (checksum (versionInfo rq))
                    then [HttpGet (the (checksum (versionInfo rq)))] else [])
                 @ [ExistsSync (installDir rq), StatSync (installDir rq),
                    ExistsSync (installSubDir_of rq), LogWarning,
                    GetFolderSize (installSubDir_of rq)]\<rparr>)"
  using assms
  by (auto simp: installVersion_def fetch_sourceChecksum_def preflight_def skip_or_install_def
        primitive_defs is_dir_def split: option.splits node.splits)

theorem existing_install_is_reused_witness:
  "fs (start wine_dir_with_install) (installSubDir_of (install_ge1 False)) \<noteq> None
   \<and> \<not> overwrite (install_ge1 False)
   \<and> is_dir (fs (start wine_dir_with_install) (installDir (install_ge1 False)))
   \<and> download (versionInfo (install_ge1 False)) \<noteq> []
   \<and> axios_get fair_weather (the (checksum (versionInfo (install_ge1 False)))) \<noteq> None
   \<and> installVersion fair_weather (install_ge1 False) (start wine_dir_with_install)
       = (Inr (ge1\<lparr>disksize := 3\<rparr>, ''/wine/GE-1''),
          \<lparr>fs = wine_dir_with_install,
           trace = [HttpGet ''https://h/GE-1.sha512sum'', ExistsSync ''/wine'',
                    StatSync ''/wine'', ExistsSync ''/wine/GE-1'', LogWarning,
                    GetFolderSize ''/wine/GE-1'']\<rparr>)"
proof -
  have h1: "fs (start wine_dir_with_install) (installSubDir_of (install_ge1 False)) \<noteq> None"
    and h2: "\<not> overwrite (install_ge1 False)"
    and h3: "is_dir (fs (start wine_dir_with_install) (installDir (install_ge1 False)))"
    and h4: "download (versionInfo (install_ge1 False)) \<noteq> []"
    and h5: "axios_get fair_weather (the (checksum (versionInfo (install_ge1 False)))) \<noteq> None"
    by (simp_all add: example_defs installSubDir_of_def is_dir_def)
  from h5 have h5': "truthy (checksum (versionInfo (install_ge1 False)))
      \<longrightarrow> axios_get fair_weather (the (checksum (versionInfo (install_ge1 False)))) \<noteq> None"
    by simp
  show ?thesis
    using h1 h2 h3 h4 h5 existing_install_is_reused [OF h1 h2 h3 h4 h5']
    by (simp add: example_defs installSubDir_of_def truthy_def node_size_def)
qed

text \<open>
  C7, as stated, fails: the download link is empty and the installation directory is
  in order, yet the error is not the one of the missing link, because the manifest is
  requested before the checks and that request is rejected.
\<close>

theorem missing_link_behind_a_failed_request:
  "download (versionInfo install_without_link) = []
   \<and> is_dir (fs (start wine_dir_empty) (installDir install_without_link))
   \<and> fst (installVersion manifest_unreachable install_without_link (start wine_dir_empty))
       = Inl RequestError"
  by (simp add: pipeline_defs primitive_defs example_defs is_dir_def Let_def)

text \<open>
  C7, amended. A run whose version has an empty download link always rejects and leaves
  every file as it was. The error is the one of the missing link when the installation
  directory is a directory and the request for the manifest, if one is made, is answered.
  (The link is a string in the type of the version, so it is never absent.)
\<close>

theorem missing_link_rejects_before_any_change:
  assumes "download (versionInfo rq) = []"
  shows "isl (fst (installVersion e rq s))
       \<and> fs (snd (installVersion e rq s)) = fs s
       \<and> (is_dir (fs s (installDir rq))
            \<and> (truthy (checksum (versionInfo rq))
                 \<longrightarrow> axios_get e (the (checksum (versionInfo rq))) \<noteq> None)
          \<longrightarrow> fst (installVersion e rq s) = Inl MissingDownloadLinkError)"
  using assms
  by (auto simp: installVersion_def fetch_sourceChecksum_def preflight_def
        primitive_defs is_dir_def split: option.splits node.splits)

theorem missing_link_rejects_witness:
  "download (versionInfo install_without_link) = []
   \<and> is_dir (fs (start wine_dir_with_install) (installDir install_without_link))
   \<and> axios_get fair_weather (the (checksum (versionInfo install_without_link))) \<noteq> None
   \<and> fst (installVersion fair_weather install_without_link (start wine_dir_with_install))
       = Inl MissingDownloadLinkError
   \<and> fs (snd (installVersion fair_weather install_without_link (start wine_dir_with_install)))
       = wine_dir_with_install"
proof -
  have h: "download (versionInfo install_without_link) = []"
    by (simp add: example_defs)
  show ?thesis
    using h missing_link_rejects_before_any_change
              [OF h, of fair_weather "start wine_dir_with_install"]
    by (simp add: example_defs is_dir_def truthy_def)
qed

section \<open>A digest that is not in the manifest\<close>

lemma abortHandler_throws_AbortError: "fst (abortHandler e t d s) = AbortError"
  by (simp add: abortHandler_def primitive_defs split: option.splits node.splits)

lemma commit_phase_no_mismatch: "fst (commit_phase e rq t d s) \<noteq> Inl ChecksumMismatchError"
  by (simp add: commit_phase_def split: prod.splits sum.splits)

lemma unzip_catch_no_mismatch: "fst (unzip_catch e rq t d err s) \<noteq> Inl ChecksumMismatchError"
  using abortHandler_throws_AbortError [of e t d s]
  by (auto simp: unzip_catch_def split: prod.splits sum.splits)

lemma extract_phase_no_mismatch: "fst (extract_phase e rq t d s) \<noteq> Inl ChecksumMismatchError"
  by (simp add: extract_phase_def unzip_catch_no_mismatch commit_phase_no_mismatch
        split: prod.splits sum.splits)

lemma checksum_phase_mismatch:
  assumes "checksum_phase e rq sc t d s = (Inl ChecksumMismatchError, s')"
  shows "truthy sc
       \<and> (\<forall>p. p \<noteq> t \<longrightarrow> fs s' p = fs s p)
       \<and> (unlink_permitted e \<longrightarrow> fs s' t = None)
       \<and> trace s' = trace s @ [ReadFileSync t, Sha512, Unlink t]"
proof -
  have no: "\<And>s1. extract_phase e rq t d s1 \<noteq> (Inl ChecksumMismatchError, s')"
    using extract_phase_no_mismatch [of e rq t d] by (metis fst_conv)
  show ?thesis
    using assms no
    by (auto simp: checksum_phase_def readFileSync_def unlinkFile_def emit_def
          split: option.splits node.splits if_splits)
qed

lemma download_phase_mismatch:
  assumes "download_phase e rq sc (tarFile_of rq) d s = (Inl ChecksumMismatchError, s')"
  shows "truthy sc
       \<and> (\<forall>p. p \<noteq> tarFile_of rq \<longrightarrow> fs s' p = fs s p)
       \<and> (unlink_permitted e \<longrightarrow> fs s' (tarFile_of rq) = None)
       \<and> trace s' = trace s @ [Unlink (tarFile_of rq),
                                Download (download (versionInfo rq)) (installDir rq),
                                ReadFileSync (tarFile_of rq), Sha512, Unlink (tarFile_of rq)]"
proof -
  obtain r1 s1 where dl: "downloadFile e (download (versionInfo rq)) (installDir rq)
                            (unlinkFile e (tarFile_of rq) s) = (r1, s1)"
    by (cases "downloadFile e (download (versionInfo rq)) (installDir rq)
                 (unlinkFile e (tarFile_of rq) s)")
  have s1: "(\<forall>p. p \<noteq> tarFile_of rq \<longrightarrow> fs s1 p = fs s p)
          \<and> trace s1 = trace s @ [Unlink (tarFile_of rq),
                                  Download (download (versionInfo rq)) (installDir rq)]"
    using dl
    by (auto simp: downloadFile_def unlinkFile_def emit_def Let_def tarFile_of_def
          split: option.splits node.splits if_splits)
  have "r1 = Inr () \<and> checksum_phase e rq sc (tarFile_of rq) d s1 = (Inl ChecksumMismatchError, s')"
    using assms dl abortHandler_throws_AbortError [of e "tarFile_of rq" d s1]
    by (auto simp: download_phase_def split: sum.splits if_splits prod.splits)
  then show ?thesis
    using checksum_phase_mismatch [of e rq sc "tarFile_of rq" d s1 s'] s1 by simp
qed

lemma fetch_sourceChecksum_rejects:
  "fetch_sourceChecksum e v s = (Inl x, s') \<Longrightarrow> x = RequestError"
  by (auto simp: fetch_sourceChecksum_def split: if_splits option.splits)

lemma preflight_rejects:
  "preflight rq s = (Inl x, s') \<Longrightarrow> \<not> defined_failure x"
  by (auto simp: preflight_def existsSync_def statSync_isDirectory_def
        split: if_splits option.splits node.splits)

text \<open>
  C10. A run that rejects with the checksum mismatch has changed nothing but the archive
  file: every other path holds what it held before, so an install to be overwritten is
  as it was and nothing is at its backup path unless it was there before; the archive is
  gone wherever removing it is permitted. The calls of the run are the nine below: the
  digest is compared before any directory is made or renamed.
\<close>

theorem checksum_mismatch_touches_only_the_archive:
  assumes "installVersion e rq s = (Inl ChecksumMismatchError, s')"
  shows "(\<forall>p. p \<noteq> tarFile_of rq \<longrightarrow> fs s' p = fs s p)
       \<and> (unlink_permitted e \<longrightarrow> fs s' (tarFile_of rq) = None)
       \<and> trace s' = trace s @ [HttpGet (the (checksum (versionInfo rq))),
                                ExistsSync (installDir rq), StatSync (installDir rq),
                                ExistsSync (installSubDir_of rq), Unlink (tarFile_of rq),
                                Download (download (versionInfo rq)) (installDir rq),
                                ReadFileSync (tarFile_of rq), Sha512, Unlink (tarFile_of rq)]"
proof -
  obtain sc s1 where f: "fetch_sourceChecksum e (versionInfo rq) s = (Inr sc, s1)"
    using assms fetch_sourceChecksum_rejects [of e "versionInfo rq" s]
    by (auto simp: installVersion_def split: prod.splits sum.splits)
  obtain s2 where p: "preflight rq s1 = (Inr (), s2)"
    using assms f preflight_rejects [of rq s1 ChecksumMismatchError]
    by (auto simp: installVersion_def split: prod.splits sum.splits)
  have k: "skip_or_install e rq sc (tarFile_of rq) (installSubDir_of rq) s2
             = (Inl ChecksumMismatchError, s')"
    using assms f p by (simp add: installVersion_def)
  obtain s3 where d: "download_phase e rq sc (tarFile_of rq) (installSubDir_of rq) s3
                        = (Inl ChecksumMismatchError, s')"
      and s3: "s3 = emit (ExistsSync (installSubDir_of rq)) s2"
    using k by (auto simp: skip_or_install_def existsSync_def getFolderSize_def split: if_splits)
  note m = download_phase_mismatch [OF d]
  have t1: "fs s1 = fs s \<and> (truthy sc \<longrightarrow>
               trace s1 = trace s @ [HttpGet (the (checksum (versionInfo rq)))])"
    using f
    by (auto simp: fetch_sourceChecksum_def emit_def truthy_def split: if_splits option.splits)
  have t2: "fs s2 = fs s1 \<and> trace s2 = trace s1 @ [ExistsSync (installDir rq), StatSync (installDir rq)]"
    using p by (auto simp: preflight_def existsSync_def statSync_isDirectory_def emit_def
                  split: if_splits option.splits node.splits)
  show ?thesis using m t1 t2 s3 by (simp add: emit_def)
qed

theorem checksum_mismatch_witness:
  "fst (installVersion wrong_digest (install_ge1 True) (start wine_dir_with_install))
     = Inl ChecksumMismatchError
   \<and> fs (snd (installVersion wrong_digest (install_ge1 True) (start wine_dir_with_install)))
        ''/wine/GE-1'' = Some (Dir [(''marker'', ''old'')])
   \<and> fs (snd (installVersion wrong_digest (install_ge1 True) (start wine_dir_with_install)))
        ''/wine/GE-1_backup'' = None
   \<and> fs (snd (installVersion wrong_digest (install_ge1 True) (start wine_dir_with_install)))
        ''/wine/GE-1.tar'' = None"
proof -
  let ?run = "installVersion wrong_digest (install_ge1 True) (start wine_dir_with_install)"
  have r: "fst ?run = Inl ChecksumMismatchError"
    by (simp add: pipeline_defs primitive_defs example_defs Let_def)
  then have h: "?run = (Inl ChecksumMismatchError, snd ?run)"
    by (metis prod.collapse)
  have t: "tarFile_of (install_ge1 True) = ''/wine/GE-1.tar''"
    by (simp add: example_defs tarFile_of_def last_segment_def)
  have u: "unlink_permitted wrong_digest"
    by (simp add: example_defs)
  show ?thesis
    using r t u checksum_mismatch_touches_only_the_archive [OF h]
    by (simp add: example_defs)
qed

section \<open>The archive file is transient\<close>

lemma mkdirSync_frame: "mkdirSync ok p s = (r, s1) \<Longrightarrow> q \<noteq> p \<Longrightarrow> fs s1 q = fs s q"
  by (auto simp: mkdirSync_def emit_def split: if_splits)

lemma renameSync_frame:
  "renameSync a b s = (r, s1) \<Longrightarrow> q \<noteq> a \<Longrightarrow> q \<noteq> b \<Longrightarrow> fs s1 q = fs s q"
  by (auto simp: renameSync_def emit_def Let_def split: if_splits option.splits node.splits)

lemma unzipFile_frame: "unzipFile e f p s = (r, s1) \<Longrightarrow> q \<noteq> p \<Longrightarrow> fs s1 q = fs s q"
  by (auto simp: unzipFile_def emit_def Let_def)

lemma unlinkFile_removes:
  "unlink_permitted e \<Longrightarrow> \<not> is_dir (fs s t) \<Longrightarrow> fs (unlinkFile e t s) t = None"
  by (auto simp: unlinkFile_def emit_def is_dir_def split: option.splits node.splits)

lemma abortHandler_archive:
  assumes "unlink_permitted e" "\<not> is_dir (fs s t)" "t \<noteq> d"
  shows "fs (snd (abortHandler e t d s)) t = None"
  using assms
  by (auto simp: abortHandler_def primitive_defs is_dir_def split: option.splits node.splits)

lemma commit_phase_archive:
  assumes "unlink_permitted e" "\<not> is_dir (fs s t)"
    and "commit_phase e rq t d s = (Inr x, s')"
  shows "fs s' t = None"
  using assms
  by (auto simp: commit_phase_def primitive_defs is_dir_def
        split: option.splits node.splits if_splits)

lemma unzip_catch_archive:
  assumes "unlink_permitted e" "\<not> is_dir (fs s t)" "t \<noteq> d"
    and "unzip_catch e rq t d err s = (r, s')" "returns_as_defined r"
  shows "fs s' t = None"
proof (cases "str_includes err ''AbortError''")
  case True
  with assms(4) have "s' = snd (abortHandler e t d s)"
    by (auto simp: unzip_catch_def split: prod.splits)
  then show ?thesis using abortHandler_archive [OF assms(1-3)] by simp
next
  case False
  then show ?thesis using assms
    by (auto simp: unzip_catch_def primitive_defs is_dir_def returns_as_defined_def Let_def
          split: option.splits node.splits if_splits prod.splits)
qed

lemma renameSync_keeps_file:
  assumes "renameSync a b s = (Inr u, s1)" "fs s t = Some (File c)" "t \<noteq> a"
  shows "\<not> is_dir (fs s1 t)"
  using assms
  by (auto simp: renameSync_def emit_def Let_def is_dir_def
        split: if_splits option.splits node.splits)

lemma extract_phase_archive:
  assumes "unlink_permitted e" "fs s t = Some (File c)" "t \<noteq> d"
    and "extract_phase e rq t d s = (r, s')" "returns_as_defined r"
  shows "fs s' t = None"
proof -
  have after: "fs s' t = None"
    if prep: "\<not> is_dir (fs s1 t)" and unz: "unzipFile e t d s1 = (r2, s2)"
      and rest: "(case r2 of Inl err \<Rightarrow> unzip_catch e rq t d err s2
                           | Inr u \<Rightarrow> commit_phase e rq t d s2) = (r, s')"
    for s1 r2 s2
  proof -
    have keep: "\<not> is_dir (fs s2 t)"
      using unzipFile_frame [OF unz, of t] prep assms(3) by simp
    show ?thesis
    proof (cases r2)
      case (Inl err)
      then show ?thesis
        using unzip_catch_archive [OF assms(1) keep assms(3) _ assms(5)] rest by simp
    next
      case (Inr u)
      then obtain x where "r = Inr x"
        using rest assms(5)
        by (cases r) (auto simp: commit_phase_def returns_as_defined_def
                        split: prod.splits sum.splits if_splits)
      then show ?thesis
        using commit_phase_archive [OF assms(1) keep] rest Inr by simp
    qed
  qed
  show ?thesis
  proof (cases "overwrite rq")
    case False
    obtain r1 s1 where mk: "mkdirSync (mkdir_permitted e) d s = (r1, s1)"
      by (cases "mkdirSync (mkdir_permitted e) d s")
    have fr: "\<not> is_dir (fs s1 t)"
      using mkdirSync_frame [OF mk] assms(2,3) by (simp add: is_dir_def)
    show ?thesis
    proof (cases r1)
      case (Inl x)
      then have "s' = unlinkFile e t s1"
        using assms(4) False mk by (simp add: extract_phase_def)
      then show ?thesis using unlinkFile_removes [OF assms(1) fr] by simp
    next
      case (Inr u)
      obtain r2 s2 where unz: "unzipFile e t d s1 = (r2, s2)" by (cases "unzipFile e t d s1")
      show ?thesis
        using after [OF fr unz] assms(4) False mk Inr unz
        by (simp add: extract_phase_def split: sum.splits)
    qed
  next
    case True
    obtain r1 s1 where mv: "renameSync d (d @ ''_backup'') s = (r1, s1)"
      by (cases "renameSync d (d @ ''_backup'') s")
    show ?thesis
    proof (cases r1)
      case (Inl x)
      then show ?thesis
        using assms(4,5) True mv by (auto simp: extract_phase_def returns_as_defined_def)
    next
      case (Inr u)
      have fr: "\<not> is_dir (fs s1 t)"
        using renameSync_keeps_file [OF _ assms(2,3)] mv Inr by simp
      obtain r2 s2 where unz: "unzipFile e t d s1 = (r2, s2)" by (cases "unzipFile e t d s1")
      show ?thesis
        using after [OF fr unz] assms(4) True mv Inr unz
        by (simp add: extract_phase_def split: sum.splits)
    qed
  qed
qed

lemma checksum_phase_archive:
  assumes "unlink_permitted e" "\<not> is_dir (fs s t)" "t \<noteq> d"
    and "checksum_phase e rq sc t d s = (r, s')" "returns_as_defined r"
  shows "fs s' t = None"
proof -
  have ex: "fs s' t = None"
    if "fs s1 t = Some (File c)" "extract_phase e rq t d s1 = (r, s')" for s1 c
    using extract_phase_archive [OF assms(1) that(1) assms(3) that(2) assms(5)] .
  show ?thesis
    using assms(1,2,4,5) ex [of "emit Sha512 (emit (ReadFileSync t) s)"]
      ex [of "emit LogWarning (emit Sha512 (emit (ReadFileSync t) s))"]
    by (auto simp: checksum_phase_def readFileSync_def unlinkFile_def emit_def is_dir_def
          returns_as_defined_def split: option.splits node.splits if_splits)
qed

lemma download_phase_archive:
  assumes "unlink_permitted e" "download_writes (on_download e) \<noteq> None"
    and "tarFile_of rq \<noteq> d"
    and "download_phase e rq sc (tarFile_of rq) d s = (r, s')" "returns_as_defined r"
  shows "fs s' (tarFile_of rq) = None"
proof -
  obtain r1 s1 where dl: "downloadFile e (download (versionInfo rq)) (installDir rq)
                            (unlinkFile e (tarFile_of rq) s) = (r1, s1)"
    by (cases "downloadFile e (download (versionInfo rq)) (installDir rq)
                 (unlinkFile e (tarFile_of rq) s)")
  have written: "\<not> is_dir (fs s1 (tarFile_of rq))"
    using dl assms(2)
    by (auto simp: downloadFile_def Let_def emit_def tarFile_of_def is_dir_def)
  show ?thesis
  proof (cases r1)
    case (Inr u)
    then show ?thesis
      using checksum_phase_archive [OF assms(1) written assms(3) _ assms(5)] assms(4) dl
      by (simp add: download_phase_def)
  next
    case (Inl err)
    show ?thesis
    proof (cases "str_includes err ''AbortError''")
      case True
      then have "s' = snd (abortHandler e (tarFile_of rq) d s1)"
        using assms(4) dl Inl by (auto simp: download_phase_def split: prod.splits)
      then show ?thesis using abortHandler_archive [OF assms(1) written assms(3)] by simp
    next
      case False
      then have "s' = unlinkFile e (tarFile_of rq) s1"
        using assms(4) dl Inl by (auto simp: download_phase_def)
      then show ?thesis using unlinkFile_removes [OF assms(1) written] by simp
    qed
  qed
qed

text \<open>
  After the outcomes the handlers were written for the archive is gone: take a run that
  reaches the download, in which the fetcher writes the archive file, and that resolves
  or rejects with an error the function throws itself. Where removing a file is
  permitted, and the archive file and the install subdirectory are different paths, the
  archive file does not exist when the run returns.
\<close>

lemma archive_is_gone_after_handled_outcomes:
  assumes "installVersion e rq s = (r, s')" and "returns_as_defined r"
    and "trace s = []"
    and "Download (download (versionInfo rq)) (installDir rq) \<in> set (trace s')"
    and "download_writes (on_download e) \<noteq> None"
    and "unlink_permitted e"
    and "tarFile_of rq \<noteq> installSubDir_of rq"
  shows "fs s' (tarFile_of rq) = None"
proof -
  obtain sc s1 where f: "fetch_sourceChecksum e (versionInfo rq) s = (Inr sc, s1)"
    using assms(1,2) fetch_sourceChecksum_rejects [of e "versionInfo rq" s]
    by (auto simp: installVersion_def returns_as_defined_def split: prod.splits sum.splits)
  obtain s2 where p: "preflight rq s1 = (Inr (), s2)"
    using assms(1,2) f preflight_rejects [of rq s1]
    by (auto simp: installVersion_def returns_as_defined_def split: prod.splits sum.splits)
  have k: "skip_or_install e rq sc (tarFile_of rq) (installSubDir_of rq) s2 = (r, s')"
    using assms(1) f p by (simp add: installVersion_def)
  have t2: "Download (download (versionInfo rq)) (installDir rq) \<notin> set (trace s2)"
    using f p assms(3)
    by (auto simp: fetch_sourceChecksum_def preflight_def existsSync_def statSync_isDirectory_def
          emit_def split: if_splits option.splits node.splits)
  have "download_phase e rq sc (tarFile_of rq) (installSubDir_of rq)
           (emit (ExistsSync (installSubDir_of rq)) s2) = (r, s')"
    using k t2 assms(4)
    by (auto simp: skip_or_install_def existsSync_def getFolderSize_def emit_def split: if_splits)
  then show ?thesis
    using download_phase_archive [OF assms(6,5) assms(7) _ assms(2)] by simp
qed

text \<open>
  C8. An overwrite install creates the archive file, removing files is permitted, and
  the extraction is rejected, not by a cancellation, before anything is written at the
  install subdirectory. The claim has the archive file gone when the run returns. In the
  code \<^verbatim>\<open>rmSync\<close> of the install subdirectory throws in the handler of \<^verbatim>\<open>unzipFile\<close>
  before \<^verbatim>\<open>unlinkFile\<close> is reached, and the archive file stays.
\<close>

theorem failed_extraction_leaves_the_archive:
  "overwrite (install_ge1 True)
   \<and> Download (download (versionInfo (install_ge1 True))) (installDir (install_ge1 True))
       \<in> set (trace (snd (installVersion unzip_fails_at_once (install_ge1 True)
                              (start wine_dir_with_install))))
   \<and> download_writes (on_download unzip_fails_at_once) = Some ''archive''
   \<and> unlink_permitted unzip_fails_at_once
   \<and> unzip_rejects (on_unzip unzip_fails_at_once) = Some ''tar: not an archive''
   \<and> isl (fst (installVersion unzip_fails_at_once (install_ge1 True)
                 (start wine_dir_with_install)))
   \<and> fs (snd (installVersion unzip_fails_at_once (install_ge1 True)
                (start wine_dir_with_install))) (tarFile_of (install_ge1 True))
       = Some (File ''archive'')"
  by (simp add: pipeline_defs primitive_defs example_defs Let_def)

section \<open>The order of the phases\<close>

text \<open>
  C6, as stated, fails: with the request for the manifest counted in the checksum phase
  (phase 4), the phases of a fresh install that succeeds are not in order; the request
  is the first call of the run, before the checks of the target.
\<close>

theorem manifest_is_requested_before_the_checks:
  "phases_of 4 (install_ge1 False)
     (trace (snd (installVersion fair_weather (install_ge1 False) (start wine_dir_empty))))
     = [4, 1, 1, 3, 4, 4, 5, 5, 6]
   \<and> \<not> sorted (phases_of 4 (install_ge1 False)
        (trace (snd (installVersion fair_weather (install_ge1 False) (start wine_dir_empty)))))
   \<and> take 2 (trace (snd (installVersion fair_weather (install_ge1 False)
                           (start wine_dir_empty))))
       = [HttpGet ''https://h/GE-1.sha512sum'', ExistsSync ''/wine'']"
  by (simp add: pipeline_defs primitive_defs example_defs Let_def phases_of_def
        map_filter_simps phase_rank_def)

lemma phases_of_append:
  "phases_of m rq (a @ b) = phases_of m rq a @ phases_of m rq b"
  by (simp add: phases_of_def map_filter_def)

lemma phases_of_Nil: "phases_of m rq [] = []"
  by (simp add: phases_of_def map_filter_def)

lemma phases_of_Cons:
  "phases_of m rq (ev # evs) =
     (case phase_rank m rq ev of None \<Rightarrow> phases_of m rq evs | Some k \<Rightarrow> k # phases_of m rq evs)"
  by (simp add: phases_of_def map_filter_simps split: option.splits)

lemmas phases_simps = phases_of_append phases_of_Nil phases_of_Cons phase_rank_def

lemma in_orderI:
  assumes "trace s' = trace s @ evs" "sorted (k # phases_of 0 rq evs)"
  shows "in_order rq k s s'"
  using assms by (simp add: in_order_def)

lemma in_order_then:
  assumes "trace s1 = trace s @ evs" "in_order rq k' s1 s'" "sorted (k # phases_of 0 rq evs @ [k'])"
  shows "in_order rq k s s'"
proof -
  obtain more where m: "trace s' = trace s1 @ more"
    using assms(2) by (auto simp: in_order_def prefix_def)
  have "sorted (k' # phases_of 0 rq more)"
    using assms(2) m by (simp add: in_order_def)
  then have "sorted (k # phases_of 0 rq (evs @ more))"
    using assms(3) by (fastforce simp: phases_of_append sorted_append)
  then show ?thesis using m assms(1) by (simp add: in_order_def)
qed

lemma in_order_extends: "in_order rq k s s' \<Longrightarrow> \<exists>evs. trace s' = trace s @ evs"
  by (auto simp: in_order_def prefix_def)

lemma installSubDir_is_not_installDir: "installSubDir_of rq \<noteq> installDir rq"
  by (simp add: installSubDir_of_def)

lemma abortHandler_in_order:
  assumes "d \<noteq> installDir rq"
  shows "in_order rq k s (snd (abortHandler e t d s))"
proof -
  have "\<exists>evs. trace (snd (abortHandler e t d s)) = trace s @ evs \<and> phases_of 0 rq evs = []"
    using assms
    by (auto simp: abortHandler_def primitive_defs phases_simps split: option.splits node.splits)
  then show ?thesis by (auto intro: in_orderI)
qed

lemma commit_phase_in_order: "in_order rq 5 s (snd (commit_phase e rq t d s))"
proof -
  have "\<exists>evs. trace (snd (commit_phase e rq t d s)) = trace s @ evs
             \<and> (phases_of 0 rq evs = [] \<or> phases_of 0 rq evs = [6])"
    by (auto simp: commit_phase_def primitive_defs phases_simps
          split: option.splits node.splits)
  then show ?thesis by (auto intro: in_orderI)
qed

lemma unzip_catch_in_order:
  assumes "d \<noteq> installDir rq"
  shows "in_order rq 5 s (snd (unzip_catch e rq t d err s))"
proof (cases "str_includes err ''AbortError''")
  case True
  then have "snd (unzip_catch e rq t d err s) = snd (abortHandler e t d s)"
    by (simp add: unzip_catch_def split: prod.splits)
  then show ?thesis using abortHandler_in_order [OF assms] by simp
next
  case False
  then have "\<exists>evs. trace (snd (unzip_catch e rq t d err s)) = trace s @ evs
             \<and> (phases_of 0 rq evs = [] \<or> phases_of 0 rq evs = [5])"
    by (auto simp: unzip_catch_def primitive_defs phases_simps Let_def
          split: option.splits node.splits)
  then show ?thesis by (auto intro: in_orderI)
qed

lemma extract_phase_in_order:
  assumes "d \<noteq> installDir rq"
  shows "in_order rq 5 s (snd (extract_phase e rq t d s))"
proof -
  have after: "in_order rq 5 s1
                 (snd (case unzipFile e t d s1 of
                         (Inl err, s2) \<Rightarrow> unzip_catch e rq t d err s2
                       | (Inr u, s2) \<Rightarrow> commit_phase e rq t d s2))" for s1
  proof -
    obtain r2 s2 where unz: "unzipFile e t d s1 = (r2, s2)" by (cases "unzipFile e t d s1")
    then have tr: "trace s2 = trace s1 @ [Unzip t d]"
      by (auto simp: unzipFile_def emit_def Let_def)
    have "in_order rq 5 s2 (snd (case r2 of Inl err \<Rightarrow> unzip_catch e rq t d err s2
                                         | Inr u \<Rightarrow> commit_phase e rq t d s2))"
      using unzip_catch_in_order [OF assms] commit_phase_in_order by (cases r2) auto
    then show ?thesis
      using in_order_then [OF tr, of rq 5 _ 5] unz by (simp add: phases_simps)
  qed
  show ?thesis
  proof (cases "overwrite rq")
    case False
    obtain r1 s1 where mk: "mkdirSync (mkdir_permitted e) d s = (r1, s1)"
      by (cases "mkdirSync (mkdir_permitted e) d s")
    then have tr: "trace s1 = trace s @ [MkdirSync d]"
      by (auto simp: mkdirSync_def emit_def split: if_splits)
    show ?thesis
    proof (cases r1)
      case (Inl x)
      then have "trace (snd (extract_phase e rq t d s)) = trace s @ [MkdirSync d, Unlink t]"
        using False mk tr by (simp add: extract_phase_def unlinkFile_def emit_def
                                split: option.splits node.splits)
      then show ?thesis by (auto intro!: in_orderI simp: phases_simps)
    next
      case (Inr u)
      then show ?thesis
        using in_order_then [OF tr after [of s1], of 5] False mk
        by (simp add: extract_phase_def phases_simps)
    qed
  next
    case True
    obtain r1 s1 where mv: "renameSync d (d @ ''_backup'') s = (r1, s1)"
      by (cases "renameSync d (d @ ''_backup'') s")
    then have tr: "trace s1 = trace s @ [RenameSync d (d @ ''_backup'')]"
      by (auto simp: renameSync_def emit_def Let_def split: if_splits option.splits node.splits)
    show ?thesis
    proof (cases r1)
      case (Inl x)
      then show ?thesis
        using True mv tr by (auto intro!: in_orderI simp: extract_phase_def phases_simps)
    next
      case (Inr u)
      then show ?thesis
        using in_order_then [OF tr after [of s1], of 5] True mv
        by (simp add: extract_phase_def phases_simps)
    qed
  qed
qed

lemma checksum_phase_in_order:
  assumes "d \<noteq> installDir rq"
  shows "in_order rq 4 s (snd (checksum_phase e rq sc t d s))"
proof -
  let ?s1 = "emit (ReadFileSync t) s"
  have a: "in_order rq 4 s (snd (extract_phase e rq t d (emit Sha512 ?s1)))"
    using in_order_then [OF _ extract_phase_in_order [OF assms], of "emit Sha512 ?s1" s
            "[ReadFileSync t, Sha512]" 4]
    by (simp add: emit_def phases_simps)
  have b: "in_order rq 4 s (snd (extract_phase e rq t d (emit LogWarning (emit Sha512 ?s1))))"
    using in_order_then [OF _ extract_phase_in_order [OF assms],
            of "emit LogWarning (emit Sha512 ?s1)" s "[ReadFileSync t, Sha512, LogWarning]" 4]
    by (simp add: emit_def phases_simps)
  have c: "in_order rq 4 s (unlinkFile e t (emit Sha512 ?s1))"
    by (rule in_orderI [where evs = "[ReadFileSync t, Sha512, Unlink t]"])
       (auto simp: unlinkFile_def emit_def phases_simps split: option.splits node.splits)
  have d: "in_order rq 4 s ?s1"
    by (rule in_orderI [where evs = "[ReadFileSync t]"]) (auto simp: emit_def phases_simps)
  show ?thesis
    using a b c d
    by (auto simp: checksum_phase_def readFileSync_def split: option.splits node.splits)
qed

lemma download_phase_in_order:
  assumes "d \<noteq> installDir rq"
  shows "in_order rq 3 s (snd (download_phase e rq sc t d s))"
proof -
  obtain r1 s1 where dl: "downloadFile e (download (versionInfo rq)) (installDir rq)
                            (unlinkFile e t s) = (r1, s1)"
    by (cases "downloadFile e (download (versionInfo rq)) (installDir rq) (unlinkFile e t s)")
  then have tr: "trace s1 = trace s @ [Unlink t, Download (download (versionInfo rq)) (installDir rq)]"
    by (auto simp: downloadFile_def unlinkFile_def emit_def Let_def
          split: option.splits node.splits if_splits)
  show ?thesis
  proof (cases r1)
    case (Inr u)
    then show ?thesis
      using in_order_then [OF tr checksum_phase_in_order [OF assms], of 3] dl
      by (simp add: download_phase_def phases_simps)
  next
    case (Inl err)
    show ?thesis
    proof (cases "str_includes err ''AbortError''")
      case True
      then have "snd (download_phase e rq sc t d s) = snd (abortHandler e t d s1)"
        using dl Inl by (simp add: download_phase_def split: prod.splits)
      then show ?thesis
        using in_order_then [OF tr abortHandler_in_order [OF assms, of 3], of 3]
        by (simp add: phases_simps)
    next
      case False
      have "in_order rq 3 s (unlinkFile e t s1)"
        by (rule in_orderI [where evs = "[Unlink t, Download (download (versionInfo rq))
                                           (installDir rq), Unlink t]"])
           (auto simp: tr unlinkFile_def emit_def phases_simps split: option.splits node.splits)
      then show ?thesis using False dl Inl by (simp add: download_phase_def)
    qed
  qed
qed

lemma skip_or_install_in_order:
  assumes "d \<noteq> installDir rq"
  shows "in_order rq 1 s (snd (skip_or_install e rq sc t d s))"
proof -
  let ?s1 = "emit (ExistsSync d) s"
  have tr: "trace ?s1 = trace s @ [ExistsSync d]" by (simp add: emit_def)
  have a: "in_order rq 1 s (snd (download_phase e rq sc t d ?s1))"
    using in_order_then [OF tr download_phase_in_order [OF assms], of 1] assms
    by (simp add: phases_simps)
  have b: "in_order rq 1 s (emit (GetFolderSize d) (emit LogWarning ?s1))"
    by (rule in_orderI [where evs = "[ExistsSync d, LogWarning, GetFolderSize d]"])
       (use assms in \<open>auto simp: emit_def phases_simps\<close>)
  show ?thesis
    using a b by (simp add: skip_or_install_def existsSync_def getFolderSize_def)
qed

lemma skip_or_install_begins:
  assumes "d \<noteq> installDir rq"
  shows "\<exists>more. trace (snd (skip_or_install e rq sc t d s)) = trace s @ ExistsSync d # more"
proof -
  obtain evs where "trace (snd (download_phase e rq sc t d (emit (ExistsSync d) s)))
                      = trace (emit (ExistsSync d) s) @ evs"
    using in_order_extends [OF download_phase_in_order [OF assms]] by blast
  then show ?thesis
    by (simp add: skip_or_install_def existsSync_def getFolderSize_def emit_def)
qed

lemma fetch_sourceChecksum_trace:
  assumes "fetch_sourceChecksum e v s = (r, s1)"
  shows "trace s1 = trace s @ (if truthy (checksum v) then [HttpGet (the (checksum v))] else [])"
  using assms by (auto simp: fetch_sourceChecksum_def emit_def split: if_splits option.splits)

lemma preflight_trace_passed:
  assumes "preflight rq s = (Inr u, s1)"
  shows "trace s1 = trace s @ [ExistsSync (installDir rq), StatSync (installDir rq)]"
  using assms
  by (auto simp: preflight_def existsSync_def statSync_isDirectory_def emit_def
        split: if_splits option.splits node.splits)

lemma preflight_trace_failed:
  assumes "preflight rq s = (Inl x, s1)"
  shows "trace s1 = trace s @ [ExistsSync (installDir rq)]
       \<or> trace s1 = trace s @ [ExistsSync (installDir rq), StatSync (installDir rq)]"
  using assms
  by (auto simp: preflight_def existsSync_def statSync_isDirectory_def emit_def
        split: if_splits option.splits node.splits)

lemma installVersion_in_order: "in_order rq 0 s (snd (installVersion e rq s))"
proof -
  obtain r1 s1 where f: "fetch_sourceChecksum e (versionInfo rq) s = (r1, s1)"
    by (cases "fetch_sourceChecksum e (versionInfo rq) s")
  note t1 = fetch_sourceChecksum_trace [OF f]
  show ?thesis
  proof (cases r1)
    case (Inl x)
    then have "snd (installVersion e rq s) = s1" using f by (simp add: installVersion_def)
    then show ?thesis using t1 by (auto simp: in_order_def phases_simps)
  next
    case (Inr sc)
    obtain r2 s2 where p: "preflight rq s1 = (r2, s2)" by (cases "preflight rq s1")
    show ?thesis
    proof (cases r2)
      case (Inl x)
      then have "snd (installVersion e rq s) = s2" using f p Inr by (simp add: installVersion_def)
      then show ?thesis
        using t1 preflight_trace_failed [of rq s1 x s2] p Inl
        by (auto simp: in_order_def phases_simps)
    next
      case (Inr u)
      have t2: "trace s2 = trace s @ (if truthy (checksum (versionInfo rq))
                                     then [HttpGet (the (checksum (versionInfo rq)))] else [])
                             @ [ExistsSync (installDir rq), StatSync (installDir rq)]"
        using t1 preflight_trace_passed [of rq s1 u s2] p Inr by simp
      have "snd (installVersion e rq s)
              = snd (skip_or_install e rq sc (tarFile_of rq) (installSubDir_of rq) s2)"
        using f p Inr \<open>r1 = Inr sc\<close> by (simp add: installVersion_def)
      then show ?thesis
        using in_order_then [OF t2 skip_or_install_in_order
                [OF installSubDir_is_not_installDir], of 0]
        by (simp add: phases_simps)
    qed
  qed
qed

lemma installVersion_begins:
  "\<exists>rest. trace (snd (installVersion e rq s))
           = trace s @ (if truthy (checksum (versionInfo rq))
                        then [HttpGet (the (checksum (versionInfo rq)))] else []) @ rest
         \<and> (rest = [] \<or> rest = [ExistsSync (installDir rq)]
              \<or> rest = [ExistsSync (installDir rq), StatSync (installDir rq)]
              \<or> (\<exists>more. rest = ExistsSync (installDir rq) # StatSync (installDir rq)
                                 # ExistsSync (installSubDir_of rq) # more))"
proof -
  obtain r1 s1 where f: "fetch_sourceChecksum e (versionInfo rq) s = (r1, s1)"
    by (cases "fetch_sourceChecksum e (versionInfo rq) s")
  note t1 = fetch_sourceChecksum_trace [OF f]
  show ?thesis
  proof (cases r1)
    case (Inl x)
    then have "snd (installVersion e rq s) = s1" using f by (simp add: installVersion_def)
    then show ?thesis using t1 by simp
  next
    case (Inr sc)
    obtain r2 s2 where p: "preflight rq s1 = (r2, s2)" by (cases "preflight rq s1")
    show ?thesis
    proof (cases r2)
      case (Inl x)
      then have "snd (installVersion e rq s) = s2" using f p Inr by (simp add: installVersion_def)
      then have s2: "snd (installVersion e rq s) = s2"
        by simp
      from preflight_trace_failed [of rq s1 x s2] p Inl
      consider "trace s2 = trace s1 @ [ExistsSync (installDir rq)]"
        | "trace s2 = trace s1 @ [ExistsSync (installDir rq), StatSync (installDir rq)]"
        by auto
      then show ?thesis
      proof cases
        case 1
        show ?thesis
          by (rule exI [where x = "[ExistsSync (installDir rq)]"]) (simp add: s2 1 t1)
      next
        case 2
        show ?thesis
          by (rule exI [where x = "[ExistsSync (installDir rq), StatSync (installDir rq)]"])
             (simp add: s2 2 t1)
      qed
    next
      case (Inr u)
      have t2: "trace s2 = trace s1 @ [ExistsSync (installDir rq), StatSync (installDir rq)]"
        using preflight_trace_passed [of rq s1 u s2] p Inr by simp
      have "snd (installVersion e rq s)
              = snd (skip_or_install e rq sc (tarFile_of rq) (installSubDir_of rq) s2)"
        using f p Inr \<open>r1 = Inr sc\<close> by (simp add: installVersion_def)
      then show ?thesis
        using skip_or_install_begins [OF installSubDir_is_not_installDir, of e rq sc "tarFile_of rq" s2]
          t1 t2 by auto
    qed
  qed
qed

lemma precedes_after_prefix:
  assumes "b \<notin> set pre" "a \<in> set pre"
  shows "precedes a b (pre @ rest)"
  using assms by (auto simp: precedes_def takeWhile_append)

lemma precedes_absent: "b \<notin> set tr \<Longrightarrow> precedes a b tr"
  by (simp add: precedes_def)

text \<open>
  With the request for the manifest counted as phase 0, the phases of the calls of a run
  never decrease; the install subdirectory is looked for only after the target has been
  checked, and the download starts only after the install subdirectory has been looked
  for.
\<close>

lemma calls_in_phase_order:
  assumes "trace s = []"
  shows "sorted (phases_of 0 rq (trace (snd (installVersion e rq s))))
       \<and> (truthy (checksum (versionInfo rq)) \<longrightarrow>
            take 1 (trace (snd (installVersion e rq s)))
              = [HttpGet (the (checksum (versionInfo rq)))])
       \<and> precedes (StatSync (installDir rq)) (ExistsSync (installSubDir_of rq))
            (trace (snd (installVersion e rq s)))
       \<and> precedes (ExistsSync (installSubDir_of rq))
            (Download (download (versionInfo rq)) (installDir rq))
            (trace (snd (installVersion e rq s)))"
proof -
  let ?tr = "trace (snd (installVersion e rq s))"
  let ?dir = "installDir rq" and ?sub = "installSubDir_of rq"
  let ?get = "if truthy (checksum (versionInfo rq))
              then [HttpGet (the (checksum (versionInfo rq)))] else []"
  have sorted: "sorted (phases_of 0 rq ?tr)"
    using installVersion_in_order [of rq s e] assms by (simp add: in_order_def)
  obtain rest where tr: "?tr = ?get @ rest"
    and shape: "rest = [] \<or> rest = [ExistsSync ?dir] \<or> rest = [ExistsSync ?dir, StatSync ?dir]
              \<or> (\<exists>more. rest = ExistsSync ?dir # StatSync ?dir # ExistsSync ?sub # more)"
    using installVersion_begins [of e rq s] assms by auto
  have first: "truthy (checksum (versionInfo rq)) \<longrightarrow> take 1 ?tr = [HttpGet (the (checksum (versionInfo rq)))]"
    using tr by simp
  have ne: "?sub \<noteq> ?dir" by (rule installSubDir_is_not_installDir)
  have p1: "precedes (StatSync ?dir) (ExistsSync ?sub) ?tr"
  proof -
    from shape consider "ExistsSync ?sub \<notin> set ?tr"
      | more where "?tr = (?get @ [ExistsSync ?dir, StatSync ?dir]) @ ExistsSync ?sub # more"
      using tr ne by auto
    then show ?thesis
    proof cases
      case 1 then show ?thesis by (rule precedes_absent)
    next
      case 2
      show ?thesis unfolding 2 by (rule precedes_after_prefix) (use ne in auto)
    qed
  qed
  have p2: "precedes (ExistsSync ?sub) (Download (download (versionInfo rq)) ?dir) ?tr"
  proof -
    from shape consider "Download (download (versionInfo rq)) ?dir \<notin> set ?tr"
      | more where "?tr = (?get @ [ExistsSync ?dir, StatSync ?dir, ExistsSync ?sub]) @ more"
      using tr by auto
    then show ?thesis
    proof cases
      case 1 then show ?thesis by (rule precedes_absent)
    next
      case 2
      show ?thesis unfolding 2 by (rule precedes_after_prefix) auto
    qed
  qed
  show ?thesis using sorted first p1 p2 by blast
qed

subsection \<open>Every run follows the protocol\<close>

lemma backup_is_not_installSubDir: "backup_of rq \<noteq> installSubDir_of rq"
  by (simp add: backup_of_def)

lemma steps_of_the_checks:
  "truthy (checksum (versionInfo rq)) \<Longrightarrow>
     step rq Declared (HttpGet (the (checksum (versionInfo rq)))) = Some ManifestFetched"
  "\<not> truthy (checksum (versionInfo rq)) \<Longrightarrow>
     step rq Declared (ExistsSync (installDir rq)) = Some TargetFound"
  "step rq ManifestFetched (ExistsSync (installDir rq)) = Some TargetFound"
  "step rq TargetFound (StatSync (installDir rq)) = Some TargetChecked"
  "step rq TargetChecked (ExistsSync (installSubDir_of rq)) = Some SubdirLooked"
  "\<not> overwrite rq \<Longrightarrow> step rq SubdirLooked LogWarning = Some SkipWarned"
  "\<not> overwrite rq \<Longrightarrow> step rq SkipWarned (GetFolderSize (installSubDir_of rq)) = Some Measured"
  by (simp_all add: step_def protocol_def)

lemma steps_of_the_download:
  "step rq SubdirLooked (Unlink (tarFile_of rq)) = Some StaleRemoved"
  "step rq StaleRemoved (Download (download (versionInfo rq)) (installDir rq)) = Some Downloaded"
  "step rq Downloaded (Unlink (tarFile_of rq)) = Some DownloadUndone"
  "step rq DownloadUndone (ExistsSync (installSubDir_of rq)) = Some AbortLooked"
  "step rq AbortLooked (RmSync (installSubDir_of rq)) = Some AbortRemoved"
  by (simp_all add: step_def protocol_def)

lemma steps_of_the_checksum:
  "step rq Downloaded (ReadFileSync (tarFile_of rq)) = Some ArchiveRead"
  "step rq ArchiveRead Sha512 = Some Hashed"
  "step rq Hashed (Unlink (tarFile_of rq)) = Some MismatchCleaned"
  "step rq Hashed LogWarning = Some HashedUnverified"
  by (simp_all add: step_def protocol_def)

lemma steps_of_the_extraction:
  "\<not> overwrite rq \<Longrightarrow> step rq Hashed (MkdirSync (installSubDir_of rq)) = Some DirMade"
  "\<not> overwrite rq \<Longrightarrow> step rq HashedUnverified (MkdirSync (installSubDir_of rq)) = Some DirMade"
  "\<not> overwrite rq \<Longrightarrow> step rq DirMade (Unlink (tarFile_of rq)) = Some MkdirUndone"
  "\<not> overwrite rq \<Longrightarrow>
     step rq DirMade (Unzip (tarFile_of rq) (installSubDir_of rq)) = Some Unzipped"
  "overwrite rq \<Longrightarrow>
     step rq Hashed (RenameSync (installSubDir_of rq) (backup_of rq)) = Some MovedAside"
  "overwrite rq \<Longrightarrow>
     step rq HashedUnverified (RenameSync (installSubDir_of rq) (backup_of rq)) = Some MovedAside"
  "overwrite rq \<Longrightarrow>
     step rq MovedAside (Unzip (tarFile_of rq) (installSubDir_of rq)) = Some Unzipped"
  "step rq Unzipped (Unlink (tarFile_of rq)) = Some UnzipUnlinked"
  "step rq UnzipUnlinked (ExistsSync (installSubDir_of rq)) = Some AbortLooked"
  "step rq Unzipped (RmSync (installSubDir_of rq)) = Some PartialRemoved"
  "step rq PartialRemoved (Unlink (tarFile_of rq)) = Some CatchUnlinked"
  "overwrite rq \<Longrightarrow>
     step rq CatchUnlinked (RenameSync (backup_of rq) (installSubDir_of rq)) = Some Restored"
  by (simp_all add: step_def protocol_def)

lemma steps_of_the_commit:
  "overwrite rq \<Longrightarrow> step rq Unzipped (RmSync (backup_of rq)) = Some BackupRemoved"
  "overwrite rq \<Longrightarrow> step rq BackupRemoved (Unlink (tarFile_of rq)) = Some CommitUnlinked"
  "overwrite rq \<Longrightarrow>
     step rq CommitUnlinked (GetFolderSize (installSubDir_of rq)) = Some Measured"
  "\<not> overwrite rq \<Longrightarrow>
     step rq UnzipUnlinked (GetFolderSize (installSubDir_of rq)) = Some Measured"
  by (simp_all add: step_def protocol_def backup_is_not_installSubDir)

lemmas protocol_steps = steps_of_the_checks steps_of_the_download steps_of_the_checksum
  steps_of_the_extraction steps_of_the_commit

lemma walk_append:
  "walk rq st (a @ b) = (case walk rq st a of None \<Rightarrow> None | Some st' \<Rightarrow> walk rq st' b)"
  by (induction a arbitrary: st) (simp_all split: option.splits)

lemma conformsI:
  assumes "trace s' = trace s @ evs" and "walk rq st evs = Some st'" and "may_end rq st'"
  shows "conforms rq st s s'"
  using assms by (simp add: conforms_def)

lemma conforms_then:
  assumes "trace s1 = trace s @ evs" and "walk rq st evs = Some st1"
    and "conforms rq st1 s1 s'"
  shows "conforms rq st s s'"
proof -
  obtain more where m: "trace s' = trace s1 @ more"
    using assms(3) by (auto simp: conforms_def prefix_def)
  then show ?thesis
    using assms by (simp add: conforms_def walk_append)
qed

lemma conforms_extends: "conforms rq st s s' \<Longrightarrow> \<exists>evs. trace s' = trace s @ evs"
  by (auto simp: conforms_def prefix_def)

lemma abortHandler_trace:
  "trace (snd (abortHandler e t d s)) = trace s @ [Unlink t, ExistsSync d]
   \<or> trace (snd (abortHandler e t d s)) = trace s @ [Unlink t, ExistsSync d, RmSync d]"
  by (simp add: abortHandler_def primitive_defs split: option.splits node.splits)

lemma abortHandler_conforms:
  assumes "step rq st (Unlink (tarFile_of rq)) = Some st1"
    and "step rq st1 (ExistsSync (installSubDir_of rq)) = Some AbortLooked"
  shows "conforms rq st s (snd (abortHandler e (tarFile_of rq) (installSubDir_of rq) s))"
  using abortHandler_trace [of e "tarFile_of rq" "installSubDir_of rq" s]
proof
  assume "trace (snd (abortHandler e (tarFile_of rq) (installSubDir_of rq) s))
            = trace s @ [Unlink (tarFile_of rq), ExistsSync (installSubDir_of rq)]"
  then show ?thesis
    by (rule conformsI [where st' = AbortLooked])
       (simp_all add: assms may_end_def)
next
  assume "trace (snd (abortHandler e (tarFile_of rq) (installSubDir_of rq) s))
            = trace s @ [Unlink (tarFile_of rq), ExistsSync (installSubDir_of rq),
                         RmSync (installSubDir_of rq)]"
  then show ?thesis
    by (rule conformsI [where st' = AbortRemoved])
       (simp_all add: assms may_end_def protocol_steps)
qed

lemma commit_phase_trace:
  "trace (snd (commit_phase e rq t d s)) =
     trace s @ (if overwrite rq
                then (if fs s (d @ ''_backup'') = None then [RmSync (d @ ''_backup'')]
                      else [RmSync (d @ ''_backup''), Unlink t, GetFolderSize d])
                else [Unlink t, GetFolderSize d])"
  by (simp add: commit_phase_def primitive_defs split: option.splits node.splits)

lemma commit_phase_conforms:
  "conforms rq Unzipped s (snd (commit_phase e rq (tarFile_of rq) (installSubDir_of rq) s))"
proof (cases "overwrite rq")
  case True
  show ?thesis
  proof (cases "fs s (backup_of rq) = None")
    case True
    show ?thesis
      by (rule conformsI [where st' = BackupRemoved and evs = "[RmSync (backup_of rq)]"])
         (use True \<open>overwrite rq\<close> in
           \<open>simp_all add: commit_phase_trace backup_of_def [symmetric] may_end_def protocol_steps\<close>)
  next
    case False
    show ?thesis
      by (rule conformsI [where st' = Measured
            and evs = "[RmSync (backup_of rq), Unlink (tarFile_of rq),
                        GetFolderSize (installSubDir_of rq)]"])
         (use False \<open>overwrite rq\<close> in
           \<open>simp_all add: commit_phase_trace backup_of_def [symmetric] may_end_def protocol_steps\<close>)
  qed
next
  case False
  show ?thesis
    by (rule conformsI [where st' = Measured
          and evs = "[Unlink (tarFile_of rq), GetFolderSize (installSubDir_of rq)]"])
       (use False in \<open>simp_all add: commit_phase_trace may_end_def protocol_steps\<close>)
qed

lemma unzip_catch_trace:
  assumes "\<not> str_includes err ''AbortError''"
  shows "trace (snd (unzip_catch e rq t d err s)) =
     trace s @ (if fs s d = None then [RmSync d]
                else if overwrite rq
                     then [RmSync d, Unlink t, RenameSync (d @ ''_backup'') d]
                     else [RmSync d, Unlink t])"
  using assms
  by (auto simp: unzip_catch_def primitive_defs Let_def split: option.splits node.splits)

lemma unzip_catch_conforms:
  "conforms rq Unzipped s
     (snd (unzip_catch e rq (tarFile_of rq) (installSubDir_of rq) err s))"
proof (cases "str_includes err ''AbortError''")
  case True
  then have "snd (unzip_catch e rq (tarFile_of rq) (installSubDir_of rq) err s)
               = snd (abortHandler e (tarFile_of rq) (installSubDir_of rq) s)"
    by (simp add: unzip_catch_def split: prod.splits)
  then show ?thesis
    using abortHandler_conforms [of rq Unzipped UnzipUnlinked s e]
    by (simp add: protocol_steps)
next
  case False
  note tr = unzip_catch_trace [OF False, of e rq "tarFile_of rq" "installSubDir_of rq" s]
  show ?thesis
  proof (cases "fs s (installSubDir_of rq) = None")
    case True
    show ?thesis
      by (rule conformsI [where st' = PartialRemoved
            and evs = "[RmSync (installSubDir_of rq)]"])
         (use True in \<open>simp_all add: tr may_end_def protocol_steps\<close>)
  next
    case present: False
    show ?thesis
    proof (cases "overwrite rq")
      case True
      show ?thesis
        by (rule conformsI [where st' = Restored
              and evs = "[RmSync (installSubDir_of rq), Unlink (tarFile_of rq),
                          RenameSync (backup_of rq) (installSubDir_of rq)]"])
           (use True present in
             \<open>simp_all add: tr backup_of_def [symmetric] may_end_def protocol_steps\<close>)
    next
      case False
      show ?thesis
        by (rule conformsI [where st' = CatchUnlinked
              and evs = "[RmSync (installSubDir_of rq), Unlink (tarFile_of rq)]"])
           (use False present in \<open>simp_all add: tr may_end_def protocol_steps\<close>)
    qed
  qed
qed

lemma extract_phase_conforms:
  assumes "st = Hashed \<or> st = HashedUnverified"
  shows "conforms rq st s (snd (extract_phase e rq (tarFile_of rq) (installSubDir_of rq) s))"
proof -
  let ?t = "tarFile_of rq" and ?d = "installSubDir_of rq"
  have after: "conforms rq st1 s1
                 (snd (case unzipFile e ?t ?d s1 of
                         (Inl err, s2) \<Rightarrow> unzip_catch e rq ?t ?d err s2
                       | (Inr u, s2) \<Rightarrow> commit_phase e rq ?t ?d s2))"
    if "step rq st1 (Unzip ?t ?d) = Some Unzipped" for s1 st1
  proof -
    obtain r2 s2 where unz: "unzipFile e ?t ?d s1 = (r2, s2)" by (cases "unzipFile e ?t ?d s1")
    then have tr: "trace s2 = trace s1 @ [Unzip ?t ?d]"
      by (auto simp: unzipFile_def emit_def Let_def)
    have "conforms rq Unzipped s2 (snd (case r2 of Inl err \<Rightarrow> unzip_catch e rq ?t ?d err s2
                                                  | Inr u \<Rightarrow> commit_phase e rq ?t ?d s2))"
      using unzip_catch_conforms commit_phase_conforms by (cases r2) auto
    then show ?thesis
      using conforms_then [OF tr, of rq st1 Unzipped] that unz by simp
  qed
  show ?thesis
  proof (cases "overwrite rq")
    case False
    obtain r1 s1 where mk: "mkdirSync (mkdir_permitted e) ?d s = (r1, s1)"
      by (cases "mkdirSync (mkdir_permitted e) ?d s")
    then have tr: "trace s1 = trace s @ [MkdirSync ?d]"
      by (auto simp: mkdirSync_def emit_def split: if_splits)
    have w: "walk rq st [MkdirSync ?d] = Some DirMade"
      using assms False by (auto simp: protocol_steps)
    show ?thesis
    proof (cases r1)
      case (Inl x)
      then have "trace (snd (extract_phase e rq ?t ?d s)) = trace s @ [MkdirSync ?d, Unlink ?t]"
        using False mk tr by (simp add: extract_phase_def unlinkFile_def emit_def
                                split: option.splits node.splits)
      then show ?thesis
        by (rule conformsI [where st' = MkdirUndone])
           (use assms False in \<open>auto simp: may_end_def protocol_steps\<close>)
    next
      case (Inr u)
      then show ?thesis
        using conforms_then [OF tr w after [of DirMade s1]] False mk
        by (simp add: extract_phase_def protocol_steps)
    qed
  next
    case True
    obtain r1 s1 where mv: "renameSync ?d (?d @ ''_backup'') s = (r1, s1)"
      by (cases "renameSync ?d (?d @ ''_backup'') s")
    then have tr: "trace s1 = trace s @ [RenameSync ?d (backup_of rq)]"
      by (auto simp: renameSync_def emit_def Let_def backup_of_def
            split: if_splits option.splits node.splits)
    have w: "walk rq st [RenameSync ?d (backup_of rq)] = Some MovedAside"
      using assms True by (auto simp: protocol_steps)
    show ?thesis
    proof (cases r1)
      case (Inl x)
      then have "snd (extract_phase e rq ?t ?d s) = s1"
        using True mv by (simp add: extract_phase_def)
      then show ?thesis
        using conformsI [OF tr w] by (simp add: may_end_def)
    next
      case (Inr u)
      then show ?thesis
        using conforms_then [OF tr w after [of MovedAside s1]] True mv
        by (simp add: extract_phase_def protocol_steps)
    qed
  qed
qed

lemma checksum_phase_conforms:
  "conforms rq Downloaded s
     (snd (checksum_phase e rq sc (tarFile_of rq) (installSubDir_of rq) s))"
proof -
  let ?t = "tarFile_of rq" and ?d = "installSubDir_of rq"
  let ?s1 = "emit (ReadFileSync ?t) s"
  have a: "conforms rq Downloaded s (snd (extract_phase e rq ?t ?d (emit Sha512 ?s1)))"
    by (rule conforms_then [where evs = "[ReadFileSync ?t, Sha512]" and ?st1.0 = Hashed,
          OF _ _ extract_phase_conforms])
       (simp_all add: emit_def protocol_steps)
  have b: "conforms rq Downloaded s
             (snd (extract_phase e rq ?t ?d (emit LogWarning (emit Sha512 ?s1))))"
    by (rule conforms_then [where evs = "[ReadFileSync ?t, Sha512, LogWarning]"
          and ?st1.0 = HashedUnverified, OF _ _ extract_phase_conforms])
       (simp_all add: emit_def protocol_steps)
  have c: "conforms rq Downloaded s (unlinkFile e ?t (emit Sha512 ?s1))"
    by (rule conformsI [where evs = "[ReadFileSync ?t, Sha512, Unlink ?t]"
          and st' = MismatchCleaned])
       (auto simp: unlinkFile_def emit_def may_end_def protocol_steps
          split: option.splits node.splits)
  have d: "conforms rq Downloaded s ?s1"
    by (rule conformsI [where evs = "[ReadFileSync ?t]" and st' = ArchiveRead])
       (auto simp: emit_def may_end_def protocol_steps)
  show ?thesis
    using a b c d
    by (auto simp: checksum_phase_def readFileSync_def split: option.splits node.splits)
qed

lemma download_phase_conforms:
  "conforms rq SubdirLooked s
     (snd (download_phase e rq sc (tarFile_of rq) (installSubDir_of rq) s))"
proof -
  let ?t = "tarFile_of rq" and ?d = "installSubDir_of rq"
  let ?dl = "Download (download (versionInfo rq)) (installDir rq)"
  obtain r1 s1 where dl: "downloadFile e (download (versionInfo rq)) (installDir rq)
                            (unlinkFile e ?t s) = (r1, s1)"
    by (cases "downloadFile e (download (versionInfo rq)) (installDir rq) (unlinkFile e ?t s)")
  then have tr: "trace s1 = trace s @ [Unlink ?t, ?dl]"
    by (auto simp: downloadFile_def unlinkFile_def emit_def Let_def
          split: option.splits node.splits if_splits)
  have w: "walk rq SubdirLooked [Unlink ?t, ?dl] = Some Downloaded"
    by (simp add: protocol_steps)
  show ?thesis
  proof (cases r1)
    case (Inr u)
    then show ?thesis
      using conforms_then [OF tr w checksum_phase_conforms] dl
      by (simp add: download_phase_def)
  next
    case (Inl err)
    show ?thesis
    proof (cases "str_includes err ''AbortError''")
      case True
      then have "snd (download_phase e rq sc ?t ?d s) = snd (abortHandler e ?t ?d s1)"
        using dl Inl by (simp add: download_phase_def split: prod.splits)
      then show ?thesis
        using conforms_then [OF tr w abortHandler_conforms [of rq Downloaded DownloadUndone]]
        by (simp add: protocol_steps)
    next
      case False
      have "conforms rq SubdirLooked s (unlinkFile e ?t s1)"
        by (rule conformsI [where evs = "[Unlink ?t, ?dl, Unlink ?t]" and st' = DownloadUndone])
           (auto simp: tr unlinkFile_def emit_def may_end_def protocol_steps
              split: option.splits node.splits)
      then show ?thesis using False dl Inl by (simp add: download_phase_def)
    qed
  qed
qed

lemma skip_or_install_conforms:
  "conforms rq TargetChecked s
     (snd (skip_or_install e rq sc (tarFile_of rq) (installSubDir_of rq) s))"
proof -
  let ?t = "tarFile_of rq" and ?d = "installSubDir_of rq"
  let ?s1 = "emit (ExistsSync ?d) s"
  have a: "conforms rq TargetChecked s (snd (download_phase e rq sc ?t ?d ?s1))"
    by (rule conforms_then [where evs = "[ExistsSync ?d]", OF _ _ download_phase_conforms])
       (simp_all add: emit_def protocol_steps)
  have b: "conforms rq TargetChecked s (emit (GetFolderSize ?d) (emit LogWarning ?s1))"
    if "\<not> overwrite rq"
    by (rule conformsI [where evs = "[ExistsSync ?d, LogWarning, GetFolderSize ?d]"
          and st' = Measured])
       (use that in \<open>auto simp: emit_def may_end_def protocol_steps\<close>)
  show ?thesis
    using a b by (simp add: skip_or_install_def existsSync_def getFolderSize_def)
qed

lemma preflight_passed:
  assumes "preflight rq s = (Inr u, s1)"
  shows "download (versionInfo rq) \<noteq> [] \<and> is_dir (fs s (installDir rq)) \<and> fs s1 = fs s"
  using assms
  by (auto simp: preflight_def existsSync_def statSync_isDirectory_def emit_def is_dir_def
        split: if_splits option.splits node.splits)

lemma fetch_sourceChecksum_failed:
  assumes "fetch_sourceChecksum e v s = (Inl x, s1)"
  shows "truthy (checksum v)"
  using assms by (auto simp: fetch_sourceChecksum_def split: if_splits option.splits)

lemma fetch_sourceChecksum_keeps_files:
  assumes "fetch_sourceChecksum e v s = (r, s1)"
  shows "fs s1 = fs s"
  using assms by (auto simp: fetch_sourceChecksum_def emit_def split: if_splits option.splits)

lemma installVersion_conforms: "conforms rq Declared s (snd (installVersion e rq s))"
proof -
  let ?dir = "installDir rq"
  let ?get = "if truthy (checksum (versionInfo rq))
              then [HttpGet (the (checksum (versionInfo rq)))] else []"
  obtain r1 s1 where f: "fetch_sourceChecksum e (versionInfo rq) s = (r1, s1)"
    by (cases "fetch_sourceChecksum e (versionInfo rq) s")
  note t1 = fetch_sourceChecksum_trace [OF f]
  have w1: "walk rq Declared (?get @ [ExistsSync ?dir]) = Some TargetFound"
    by (simp add: protocol_steps)
  have w2: "walk rq Declared (?get @ [ExistsSync ?dir, StatSync ?dir]) = Some TargetChecked"
    by (simp add: protocol_steps)
  show ?thesis
  proof (cases r1)
    case (Inl x)
    then have end1: "snd (installVersion e rq s) = s1" and c: "truthy (checksum (versionInfo rq))"
      using f fetch_sourceChecksum_failed [of e "versionInfo rq" s x s1]
      by (simp_all add: installVersion_def)
    show ?thesis
      unfolding end1
      by (rule conformsI [where evs = "[HttpGet (the (checksum (versionInfo rq)))]"
            and st' = ManifestFetched])
         (use t1 c in \<open>simp_all add: may_end_def protocol_steps\<close>)
  next
    case (Inr sc)
    obtain r2 s2 where p: "preflight rq s1 = (r2, s2)" by (cases "preflight rq s1")
    show ?thesis
    proof (cases r2)
      case (Inl x)
      then have end2: "snd (installVersion e rq s) = s2"
        using f p Inr by (simp add: installVersion_def)
      from preflight_trace_failed [of rq s1 x s2] p Inl
      consider "trace s2 = trace s @ ?get @ [ExistsSync ?dir]"
        | "trace s2 = trace s @ ?get @ [ExistsSync ?dir, StatSync ?dir]"
        using t1 by auto
      then show ?thesis
      proof cases
        case 1
        show ?thesis unfolding end2
          by (rule conformsI [OF 1 w1]) (simp add: may_end_def)
      next
        case 2
        show ?thesis unfolding end2
          by (rule conformsI [OF 2 w2]) (simp add: may_end_def)
      qed
    next
      case (Inr u)
      have t2: "trace s2 = trace s @ ?get @ [ExistsSync ?dir, StatSync ?dir]"
        using t1 preflight_trace_passed [of rq s1 u s2] p Inr by simp
      have "snd (installVersion e rq s)
              = snd (skip_or_install e rq sc (tarFile_of rq) (installSubDir_of rq) s2)"
        using f p Inr \<open>r1 = Inr sc\<close> by (simp add: installVersion_def)
      then show ?thesis
        using conforms_then [OF t2 w2 skip_or_install_conforms] by simp
    qed
  qed
qed

text \<open>
  A run either ends within the checks, having changed nothing, or it has passed them
  and looked for the install subdirectory before any other call.
\<close>

lemma installVersion_checks_first:
  "\<exists>rest. trace (snd (installVersion e rq s))
           = trace s @ (if truthy (checksum (versionInfo rq))
                        then [HttpGet (the (checksum (versionInfo rq)))] else []) @ rest
         \<and> ((\<forall>ev \<in> set rest. \<not> changes_files ev)
              \<or> (\<exists>more. rest = ExistsSync (installDir rq) # StatSync (installDir rq)
                                 # ExistsSync (installSubDir_of rq) # more
                        \<and> download (versionInfo rq) \<noteq> []
                        \<and> is_dir (fs s (installDir rq))))"
proof -
  obtain r1 s1 where f: "fetch_sourceChecksum e (versionInfo rq) s = (r1, s1)"
    by (cases "fetch_sourceChecksum e (versionInfo rq) s")
  note t1 = fetch_sourceChecksum_trace [OF f]
  show ?thesis
  proof (cases r1)
    case (Inl x)
    then have "snd (installVersion e rq s) = s1" using f by (simp add: installVersion_def)
    then show ?thesis using t1 by simp
  next
    case (Inr sc)
    obtain r2 s2 where p: "preflight rq s1 = (r2, s2)" by (cases "preflight rq s1")
    show ?thesis
    proof (cases r2)
      case (Inl x)
      then have s2: "snd (installVersion e rq s) = s2"
        using f p Inr by (simp add: installVersion_def)
      from preflight_trace_failed [of rq s1 x s2] p Inl
      consider "trace s2 = trace s1 @ [ExistsSync (installDir rq)]"
        | "trace s2 = trace s1 @ [ExistsSync (installDir rq), StatSync (installDir rq)]"
        by auto
      then show ?thesis
      proof cases
        case 1
        show ?thesis
          by (rule exI [where x = "[ExistsSync (installDir rq)]"]) (simp add: s2 1 t1)
      next
        case 2
        show ?thesis
          by (rule exI [where x = "[ExistsSync (installDir rq), StatSync (installDir rq)]"])
             (simp add: s2 2 t1)
      qed
    next
      case (Inr u)
      have t2: "trace s2 = trace s1 @ [ExistsSync (installDir rq), StatSync (installDir rq)]"
        using preflight_trace_passed [of rq s1 u s2] p Inr by simp
      have ok: "download (versionInfo rq) \<noteq> [] \<and> is_dir (fs s (installDir rq))"
        using preflight_passed [of rq s1 u s2] p Inr fetch_sourceChecksum_keeps_files [OF f]
        by simp
      have "snd (installVersion e rq s)
              = snd (skip_or_install e rq sc (tarFile_of rq) (installSubDir_of rq) s2)"
        using f p Inr \<open>r1 = Inr sc\<close> by (simp add: installVersion_def)
      then show ?thesis
        using skip_or_install_begins [OF installSubDir_is_not_installDir,
                of e rq sc "tarFile_of rq" s2] t1 t2 ok
        by auto
    qed
  qed
qed

text \<open>
  C6, amended. In every run the phases follow one another in the order of the claim,
  but for the request for the checksum manifest, which is made first (when a checksum
  URL is given), before the checks of the target and of the link. The calls of a run are
  a path through the protocol, from the first stage to one a run may end in, so no call
  is made out of its place; with the request for the manifest counted as phase 0 the
  phases of the calls never decrease; the install subdirectory is looked for only after
  the target has been checked, and the download starts only after that look; and a call
  that changes a file is made only after that look, in a run whose download link is not
  empty and whose target is a directory.
\<close>

theorem manifest_first_then_phases_in_order:
  assumes "trace s = []"
  shows "follows_protocol rq (trace (snd (installVersion e rq s)))
       \<and> sorted (phases_of 0 rq (trace (snd (installVersion e rq s))))
       \<and> (truthy (checksum (versionInfo rq)) \<longrightarrow>
            take 1 (trace (snd (installVersion e rq s)))
              = [HttpGet (the (checksum (versionInfo rq)))])
       \<and> precedes (StatSync (installDir rq)) (ExistsSync (installSubDir_of rq))
            (trace (snd (installVersion e rq s)))
       \<and> precedes (ExistsSync (installSubDir_of rq))
            (Download (download (versionInfo rq)) (installDir rq))
            (trace (snd (installVersion e rq s)))
       \<and> (\<forall>ev \<in> set (trace (snd (installVersion e rq s))). changes_files ev \<longrightarrow>
              precedes (ExistsSync (installSubDir_of rq)) ev
                (trace (snd (installVersion e rq s)))
              \<and> download (versionInfo rq) \<noteq> []
              \<and> is_dir (fs s (installDir rq)))"
proof -
  let ?tr = "trace (snd (installVersion e rq s))"
  let ?dir = "installDir rq" and ?sub = "installSubDir_of rq"
  let ?get = "if truthy (checksum (versionInfo rq))
              then [HttpGet (the (checksum (versionInfo rq)))] else []"
  have proto: "follows_protocol rq ?tr"
    using installVersion_conforms [of rq s e] assms
    by (simp add: conforms_def follows_protocol_def)
  note order = calls_in_phase_order [OF assms, of rq e]
  obtain rest where tr: "?tr = ?get @ rest"
    and shape: "(\<forall>ev \<in> set rest. \<not> changes_files ev)
              \<or> (\<exists>more. rest = ExistsSync ?dir # StatSync ?dir # ExistsSync ?sub # more
                        \<and> download (versionInfo rq) \<noteq> [] \<and> is_dir (fs s ?dir))"
    using installVersion_checks_first [of e rq s] assms by auto
  have changes: "precedes (ExistsSync ?sub) ev ?tr
                 \<and> download (versionInfo rq) \<noteq> [] \<and> is_dir (fs s ?dir)"
    if "ev \<in> set ?tr" and "changes_files ev" for ev
  proof -
    have "ev \<in> set rest" using that tr by (auto split: if_splits)
    with shape that(2) obtain more
      where more: "rest = ExistsSync ?dir # StatSync ?dir # ExistsSync ?sub # more"
        and ok: "download (versionInfo rq) \<noteq> [] \<and> is_dir (fs s ?dir)"
      by auto
    have split: "?tr = (?get @ [ExistsSync ?dir, StatSync ?dir, ExistsSync ?sub]) @ more"
      using tr more by simp
    have "precedes (ExistsSync ?sub) ev ?tr"
      unfolding split by (rule precedes_after_prefix) (use that(2) in auto)
    then show ?thesis using ok by simp
  qed
  show ?thesis using proto order changes by blast
qed

theorem manifest_first_witness:
  "trace (start wine_dir_empty) = []
   \<and> truthy (checksum (versionInfo (install_ge1 False)))
   \<and> trace (snd (installVersion fair_weather (install_ge1 False) (start wine_dir_empty)))
       = [HttpGet ''https://h/GE-1.sha512sum'', ExistsSync ''/wine'', StatSync ''/wine'',
          ExistsSync ''/wine/GE-1'', Unlink ''/wine/GE-1.tar'',
          Download ''https://h/GE-1.tar'' ''/wine'', ReadFileSync ''/wine/GE-1.tar'', Sha512,
          MkdirSync ''/wine/GE-1'', Unzip ''/wine/GE-1.tar'' ''/wine/GE-1'',
          Unlink ''/wine/GE-1.tar'', GetFolderSize ''/wine/GE-1'']
   \<and> follows_protocol (install_ge1 False)
        (trace (snd (installVersion fair_weather (install_ge1 False) (start wine_dir_empty))))
   \<and> sorted (phases_of 0 (install_ge1 False)
        (trace (snd (installVersion fair_weather (install_ge1 False) (start wine_dir_empty)))))
   \<and> precedes (StatSync ''/wine'') (ExistsSync ''/wine/GE-1'')
        (trace (snd (installVersion fair_weather (install_ge1 False) (start wine_dir_empty))))
   \<and> precedes (ExistsSync ''/wine/GE-1'') (Download ''https://h/GE-1.tar'' ''/wine'')
        (trace (snd (installVersion fair_weather (install_ge1 False) (start wine_dir_empty))))
   \<and> changes_files (Unlink ''/wine/GE-1.tar'')
   \<and> precedes (ExistsSync ''/wine/GE-1'') (Unlink ''/wine/GE-1.tar'')
        (trace (snd (installVersion fair_weather (install_ge1 False) (start wine_dir_empty))))
   \<and> download (versionInfo (install_ge1 False)) \<noteq> []
   \<and> is_dir (fs (start wine_dir_empty) (installDir (install_ge1 False)))"
proof -
  let ?tr = "trace (snd (installVersion fair_weather (install_ge1 False)
                           (start wine_dir_empty)))"
  have h: "trace (start wine_dir_empty) = []"
    by (simp add: start_def)
  have c: "truthy (checksum (versionInfo (install_ge1 False)))"
    by (simp add: example_defs truthy_def)
  have tr: "?tr = [HttpGet ''https://h/GE-1.sha512sum'', ExistsSync ''/wine'', StatSync ''/wine'',
          ExistsSync ''/wine/GE-1'', Unlink ''/wine/GE-1.tar'',
          Download ''https://h/GE-1.tar'' ''/wine'', ReadFileSync ''/wine/GE-1.tar'', Sha512,
          MkdirSync ''/wine/GE-1'', Unzip ''/wine/GE-1.tar'' ''/wine/GE-1'',
          Unlink ''/wine/GE-1.tar'', GetFolderSize ''/wine/GE-1'']"
    by (simp add: pipeline_defs primitive_defs example_defs Let_def)
  have u: "Unlink ''/wine/GE-1.tar'' \<in> set ?tr" "changes_files (Unlink ''/wine/GE-1.tar'')"
    by (simp_all add: tr)
  have paths: "installSubDir_of (install_ge1 False) = ''/wine/GE-1''"
    "installDir (install_ge1 False) = ''/wine''"
    "download (versionInfo (install_ge1 False)) = ''https://h/GE-1.tar''"
    by (simp_all add: example_defs installSubDir_of_def)
  note run = manifest_first_then_phases_in_order [OF h, of "install_ge1 False" fair_weather]
  have f1: "follows_protocol (install_ge1 False) ?tr"
    and f2: "sorted (phases_of 0 (install_ge1 False) ?tr)"
    using run by blast+
  have f3: "precedes (StatSync ''/wine'') (ExistsSync ''/wine/GE-1'') ?tr"
    and f4: "precedes (ExistsSync ''/wine/GE-1'') (Download ''https://h/GE-1.tar'' ''/wine'') ?tr"
    using run unfolding paths by blast+
  have at_unlink:
    "precedes (ExistsSync (installSubDir_of (install_ge1 False))) (Unlink ''/wine/GE-1.tar'') ?tr
     \<and> download (versionInfo (install_ge1 False)) \<noteq> []
     \<and> is_dir (fs (start wine_dir_empty) (installDir (install_ge1 False)))"
    using run u by blast
  then have f5: "precedes (ExistsSync ''/wine/GE-1'') (Unlink ''/wine/GE-1.tar'') ?tr"
    and f6: "download (versionInfo (install_ge1 False)) \<noteq> []"
    and f7: "is_dir (fs (start wine_dir_empty) (installDir (install_ge1 False)))"
    unfolding paths by blast+
  show ?thesis
    by (intro conjI) (rule h c tr f1 f2 f3 f4 u(2) f5 f6 f7)+
qed

section \<open>What the handlers do in general\<close>

text \<open>
  \<^verbatim>\<open>abortHandler\<close> leaves nothing at the install subdirectory and touches no path but
  the archive and the install subdirectory; a backup stays where it is.
\<close>

lemma abortHandler_removes_install_subdir: "fs (snd (abortHandler e t d s)) d = None"
  by (simp add: abortHandler_def primitive_defs split: option.splits node.splits)

lemma abortHandler_keeps_other_paths:
  assumes "q \<noteq> t" and "q \<noteq> d"
  shows "fs (snd (abortHandler e t d s)) q = fs s q"
  using assms
  by (simp add: abortHandler_def primitive_defs split: option.splits node.splits)

text \<open>
  The rollback of a rejected extraction works when the extractor has left something at
  the install subdirectory: the old install is back, the backup and the archive are gone.
\<close>

lemma rejected_extraction_is_rolled_back:
  assumes "overwrite rq" and "\<not> str_includes err ''AbortError''"
    and "fs s d = Some partial" and "fs s (d @ ''_backup'') = Some old"
    and "fs s t = Some (File c)" and "unlink_permitted e"
    and "t \<noteq> d" and "t \<noteq> d @ ''_backup''"
  shows "fst (unzip_catch e rq t d err s) = Inl (ExtractionError err)
       \<and> fs (snd (unzip_catch e rq t d err s)) d = Some old
       \<and> fs (snd (unzip_catch e rq t d err s)) (d @ ''_backup'') = None
       \<and> fs (snd (unzip_catch e rq t d err s)) t = None"
proof -
  obtain s1 where rm: "rmSync d s = (Inr (), s1)"
    and s1: "fs s1 = (fs s)(d := None)"
    using assms(3) by (simp add: rmSync_def emit_def)
  let ?s2 = "unlinkFile e t s1"
  have s2: "fs ?s2 = (fs s)(d := None, t := None)"
    using s1 assms(5,6,7) by (simp add: unlinkFile_def emit_def)
  obtain s3 where mv: "renameSync (d @ ''_backup'') d ?s2 = (Inr (), s3)"
    and s3: "fs s3 d = Some old \<and> fs s3 t = None \<and> fs s3 (d @ ''_backup'') = None"
    using s2 assms(4,7,8)
    by (cases old) (auto simp: renameSync_def emit_def Let_def)
  have "unzip_catch e rq t d err s = (Inl (ExtractionError err), s3)"
    using assms(1,2) rm mv by (simp add: unzip_catch_def)
  then show ?thesis using s3 by simp
qed

text \<open>The test of JavaScript is containment as a contiguous piece.\<close>

lemma str_includes_iff_sublist: "str_includes s t \<longleftrightarrow> sublist t s"
proof (induction s)
  case Nil
  then show ?case by simp
next
  case (Cons c cs)
  then show ?case by (cases t) (simp_all add: sublist_Cons_right)
qed

text \<open>
  With a manifest that is not empty the digest is compared: a digest that is not in the
  manifest rejects the run and removes the archive.
\<close>

lemma mismatch_is_rejected:
  assumes "manifest \<noteq> []" and "fs s t = Some (File c)"
    and "\<not> sublist (sha512_hex e c) manifest"
  shows "fst (checksum_phase e rq (Some manifest) t d s) = Inl ChecksumMismatchError
       \<and> (unlink_permitted e \<longrightarrow> fs (snd (checksum_phase e rq (Some manifest) t d s)) t = None)"
  using assms
  by (simp add: checksum_phase_def readFileSync_def unlinkFile_def emit_def truthy_def
        str_includes_iff_sublist)

text \<open>
  An exception of graceful-fs that no handler catches ends the run without the cleanup:
  a request to overwrite a version that is not installed is rejected by \<^verbatim>\<open>renameSync\<close>
  after the download, and the archive stays.
\<close>

lemma overwrite_without_install_keeps_archive:
  "fst (installVersion fair_weather (install_ge1 True) (start wine_dir_empty))
     = Inl (FsError ENOENT)
   \<and> fs (snd (installVersion fair_weather (install_ge1 True) (start wine_dir_empty)))
        ''/wine/GE-1.tar'' = Some (File ''archive'')"
  by (simp add: pipeline_defs primitive_defs example_defs Let_def)

end
